theory Spec2Isabelle
  imports Complex_Main "HOL-Library.Word"
begin

section \<open>JavaScript strings and values\<close>

text \<open>
  A JavaScript string is a sequence of UTF-16 code units; \<open>length\<close>, \<open>slice\<close>,
  \<open>includes\<close>, \<open>trim\<close> and the regular expressions of \<^verbatim>\<open>index.js\<close> (none has the
  \<^verbatim>\<open>u\<close> flag) all work on code units. Literals of the source are ASCII and are
  written through \<open>js\<close>.
\<close>

type_synonym jsstring = "16 word list"

definition js :: "string \<Rightarrow> jsstring" where
  "js s = map of_char s"

text \<open>
  \<^verbatim>\<open>String.prototype.trim\<close> strips WhiteSpace and LineTerminator code units
  (ECMA-262, 22.1.3.32) from both ends.
\<close>

definition isWhiteSpace :: "16 word \<Rightarrow> bool" where
  "isWhiteSpace c \<longleftrightarrow>
     c = 0x9 \<or> c = 0xA \<or> c = 0xB \<or> c = 0xC \<or> c = 0xD \<or> c = 0x20 \<or> c = 0xA0 \<or>
     c = 0x1680 \<or> (0x2000 \<le> c \<and> c \<le> 0x200A) \<or> c = 0x2028 \<or> c = 0x2029 \<or>
     c = 0x202F \<or> c = 0x205F \<or> c = 0x3000 \<or> c = 0xFEFF"

definition trim :: "jsstring \<Rightarrow> jsstring" where
  "trim s = rev (dropWhile isWhiteSpace (rev (dropWhile isWhiteSpace s)))"

text \<open>\<^verbatim>\<open>s.includes(x)\<close>: \<open>x\<close> occurs in \<open>s\<close> as a contiguous run.\<close>

fun startsWith :: "'a list \<Rightarrow> 'a list \<Rightarrow> bool" where
  "startsWith s [] = True"
| "startsWith [] (y # ys) = False"
| "startsWith (c # cs) (y # ys) = (c = y \<and> startsWith cs ys)"

fun str_includes :: "'a list \<Rightarrow> 'a list \<Rightarrow> bool" where
  "str_includes [] x = (x = [])"
| "str_includes (c # cs) x = (startsWith (c # cs) x \<or> str_includes cs x)"

text \<open>
  The values a parsed JSON body, a query parameter or an argument can be. A number is
  kept as the 64 bits of its double: no function modelled here computes with one.
\<close>

datatype jsvalue =
    JUndefined
  | JNull
  | JBoolean bool
  | JNumber "64 word"
  | JString jsstring
  | JArray "jsvalue list"
  | JObject "(jsstring \<times> jsvalue) list"

section \<open>Filename sanitizer\<close>

text \<open>
  The character class \<^verbatim>\<open>[A-Za-z0-9._-]\<close> and the test of
  \<^verbatim>\<open>/^[A-Za-z0-9._-]+$/\<close>: without the \<^verbatim>\<open>m\<close> flag the anchors are the two ends of
  the input, so the whole string is one or more characters of the class.
\<close>

definition inClass :: "16 word \<Rightarrow> bool" where
  "inClass c \<longleftrightarrow>
     (0x41 \<le> c \<and> c \<le> 0x5A) \<or> (0x61 \<le> c \<and> c \<le> 0x7A) \<or> (0x30 \<le> c \<and> c \<le> 0x39) \<or>
     c = 0x2E \<or> c = 0x5F \<or> c = 0x2D"

fun classStar :: "jsstring \<Rightarrow> bool" where
  "classStar [] = True"
| "classStar (c # cs) = (inClass c \<and> classStar cs)"

fun safeNameTest :: "jsstring \<Rightarrow> bool" where
  "safeNameTest [] = False"
| "safeNameTest (c # cs) = (inClass c \<and> classStar cs)"

text \<open>
  \<^verbatim>\<open>function sanitizeFilename(name, fallback = "data.json")\<close>: the default is bound
  when the argument is \<^verbatim>\<open>undefined\<close>.
\<close>

definition defaultParam :: "jsvalue \<Rightarrow> jsvalue \<Rightarrow> jsvalue" where
  "defaultParam d v = (if v = JUndefined then d else v)"

text \<open>
  \<^verbatim>\<open>!name || typeof name !== "string"\<close> holds of every value that is not a string and
  of the empty string; past it \<open>name\<close> is a non-empty string.
\<close>

definition sanitizeFilename :: "jsvalue \<Rightarrow> jsvalue \<Rightarrow> jsvalue" where
  "sanitizeFilename name fallbackArg =
     (let fallback = defaultParam (JString (js ''data.json'')) fallbackArg in
      case name of
        JString s \<Rightarrow>
          if s = [] then fallback
          else
            let trimmed = trim s in
            if trimmed = [] then fallback
            else if str_includes trimmed (js ''/'') \<or> str_includes trimmed (js [CHR 0x5C])
                    \<or> str_includes trimmed (js ''..'') then fallback
            else if \<not> safeNameTest trimmed then fallback
            else JString trimmed
      | _ \<Rightarrow> fallback)"

section \<open>Configuration and errors\<close>

text \<open>
  A JavaScript number as a configuration value can hold it: not a number, an infinity,
  or a finite value (every double is a rational).
\<close>

datatype jsnumber = NaN | PosInfinity | NegInfinity | Finite rat

text \<open>
  The environment variables \<^verbatim>\<open>index.js\<close> reads; a variable that is not set is
  \<open>None\<close>. \<open>FETCH_TIMEOUT_MS\<close> is the constant of that name, the number that
  \<^verbatim>\<open>Number(process.env.FETCH_TIMEOUT_MS || 30000)\<close> gives.
\<close>

record env =
  ALLOWED_FETCH_HOSTS :: "jsstring option"
  BASE_IRI :: "jsstring option"
  RMLMAPPER_JAR :: "jsstring option"
  DEFAULT_SERIALIZATION :: "jsstring option"
  FETCH_TIMEOUT_MS :: jsnumber

text \<open>\<^verbatim>\<open>process.env.X || d\<close>: an unset and an empty variable both give the default.\<close>

definition orDefault :: "jsstring option \<Rightarrow> jsstring \<Rightarrow> jsstring" where
  "orDefault v d = (case v of None \<Rightarrow> d | Some s \<Rightarrow> if s = [] then d else s)"

text \<open>
  A thrown value or a rejection reason: an \<^verbatim>\<open>Error\<close> object with its name and its
  message. \<^verbatim>\<open>new Error(m)\<close> has the name \<^verbatim>\<open>Error\<close>.
\<close>

datatype exn = Exn (exn_name: jsstring) (message: jsstring)

definition newError :: "jsstring \<Rightarrow> exn" where
  "newError m = Exn (js ''Error'') m"

text \<open>
  A non-negative integer in a template literal (\<^verbatim>\<open>${resp.status}\<close>, \<^verbatim>\<open>${code}\<close>) is
  written in decimal; a negative one has a minus sign before its digits.
\<close>

fun numToString :: "nat \<Rightarrow> jsstring" where
  "numToString n =
     (if n < 10 then [of_nat (48 + n)]
      else numToString (n div 10) @ [of_nat (48 + n mod 10)])"

declare numToString.simps [simp del]

section \<open>URL validator\<close>

text \<open>
  \<^verbatim>\<open>new URL(u)\<close> is Node's WHATWG URL parser; it is a parameter of the model. It
  gives \<open>None\<close> where the constructor throws \<^verbatim>\<open>TypeError\<close>, and the two fields of the
  parsed URL that \<^verbatim>\<open>index.js\<close> reads otherwise.
\<close>

record url =
  protocol :: jsstring
  hostname :: jsstring

type_synonym url_parser = "jsstring \<Rightarrow> url option"

definition isHttpUrl :: "url_parser \<Rightarrow> jsstring \<Rightarrow> bool" where
  "isHttpUrl parseURL u =
     (case parseURL u of
        None \<Rightarrow> False
      | Some url \<Rightarrow> protocol url = js ''http:'' \<or> protocol url = js ''https:'')"

text \<open>\<^verbatim>\<open>s.split(",")\<close>: the pieces between the separators; the empty string gives one empty piece.\<close>

fun split :: "'a \<Rightarrow> 'a list \<Rightarrow> 'a list list" where
  "split sep [] = [[]]"
| "split sep (c # cs) =
     (if c = sep then [] # split sep cs
      else (case split sep cs of [] \<Rightarrow> [[c]] | w # ws \<Rightarrow> (c # w) # ws))"

definition allowList :: "env \<Rightarrow> jsstring list" where
  "allowList e =
     filter (\<lambda>s. s \<noteq> []) (map trim (split 0x2C (orDefault (ALLOWED_FETCH_HOSTS e) [])))"

text \<open>
  \<open>isAllowedHost\<close> has no \<^verbatim>\<open>try\<close>: with entries in the list, \<^verbatim>\<open>new URL(u)\<close> is
  evaluated and its \<^verbatim>\<open>TypeError\<close> leaves the function.
\<close>

definition invalidUrl :: exn where
  "invalidUrl = Exn (js ''TypeError'') (js ''Invalid URL'')"

definition isAllowedHost :: "env \<Rightarrow> url_parser \<Rightarrow> jsstring \<Rightarrow> exn + bool" where
  "isAllowedHost e parseURL u =
     (let allow = allowList e in
      if length allow = 0 then Inr True
      else (case parseURL u of
              None \<Rightarrow> Inl invalidUrl
            | Some url \<Rightarrow> Inr (hostname url \<in> set allow)))"

section \<open>Result serializer\<close>

text \<open>\<open>contentTypeFor\<close> switches with strict equality: a value that is not a string takes the default.\<close>

definition contentTypeFor :: "jsvalue \<Rightarrow> jsstring" where
  "contentTypeFor serialization =
     (if serialization = JString (js ''turtle'') then js ''text/turtle''
      else if serialization = JString (js ''trig'') then js ''application/trig''
      else if serialization = JString (js ''jsonld'') then js ''application/ld+json''
      else js ''application/n-quads'')"

text \<open>The \<^verbatim>\<open>outputExt\<close> expression of the handler.\<close>

definition outputExt :: "jsstring \<Rightarrow> jsstring" where
  "outputExt serialization =
     (if serialization = js ''turtle'' then js ''ttl''
      else if serialization = js ''jsonld'' then js ''jsonld''
      else js ''nq'')"

section \<open>Engine invoker\<close>

text \<open>
  The argument object of \<open>runRmlMapper\<close>, with the types the handler passes: the
  serialization is a string, the base IRI a string or \<^verbatim>\<open>undefined\<close>. A string is truthy
  when it is not empty.
\<close>

record mapper_params =
  workdir :: jsstring
  mappingPath :: jsstring
  outputPath :: jsstring
  serialization :: jsstring
  baseIri :: "jsstring option"

record spawn_call =
  command :: jsstring
  args :: "jsstring list"
  cwd :: jsstring

definition mapperArgs :: "env \<Rightarrow> mapper_params \<Rightarrow> jsstring list" where
  "mapperArgs e p =
     [js ''-jar'', orDefault (RMLMAPPER_JAR e) (js ''/opt/rmlmapper.jar''),
      js ''-m'', mappingPath p, js ''-o'', outputPath p]
     @ (if serialization p \<noteq> [] then [js ''-s'', serialization p] else [])
     @ (case baseIri p of
          None \<Rightarrow> []
        | Some b \<Rightarrow> if b \<noteq> [] then [js ''-b'', b] else [])"

definition mapperSpawn :: "env \<Rightarrow> mapper_params \<Rightarrow> spawn_call" where
  "mapperSpawn e p = \<lparr> command = js ''java'', args = mapperArgs e p, cwd = workdir p \<rparr>"

text \<open>
  What the child process does is a sequence of events: chunks of its stderr (each already
  decoded by \<^verbatim>\<open>d.toString()\<close>), an \<^verbatim>\<open>error\<close> event, and the \<^verbatim>\<open>close\<close> event with the
  exit code (\<^verbatim>\<open>null\<close> when a signal ended the process, a negative error number after a
  failed spawn). The promise of \<open>runRmlMapper\<close> settles once: a later \<^verbatim>\<open>resolve\<close> or
  \<^verbatim>\<open>reject\<close> does nothing.
\<close>

datatype child_event =
    StderrData jsstring
  | ProcError exn
  | ProcClose "int option"

datatype 'a promise = Pending | Resolved 'a | Rejected exn

record mapper_state =
  stderr :: jsstring
  settled :: "jsstring promise"

definition settle :: "jsstring promise \<Rightarrow> mapper_state \<Rightarrow> mapper_state" where
  "settle p st = (if settled st = Pending then st\<lparr>settled := p\<rparr> else st)"

text \<open>\<^verbatim>\<open>s.slice(-n)\<close>: the last \<open>n\<close> code units, the whole string when it is shorter.\<close>

definition sliceLast :: "nat \<Rightarrow> 'a list \<Rightarrow> 'a list" where
  "sliceLast n s = drop (length s - n) s"

definition codeToString :: "int option \<Rightarrow> jsstring" where
  "codeToString code =
     (case code of
        None \<Rightarrow> js ''null''
      | Some n \<Rightarrow> if n < 0 then js ''-'' @ numToString (nat (- n)) else numToString (nat n))"

fun onEvent :: "mapper_state \<Rightarrow> child_event \<Rightarrow> mapper_state" where
  "onEvent st (StderrData d) =
     (let s = stderr st @ d in
      st\<lparr>stderr := (if length s > 200000 then sliceLast 200000 s else s)\<rparr>)"
| "onEvent st (ProcError err) = settle (Rejected err) st"
| "onEvent st (ProcClose code) =
     (if code = Some 0 then settle (Resolved (stderr st)) st
      else settle (Rejected (newError
             (js ''RMLMapper exited with code '' @ codeToString code @ [0xA] @ stderr st))) st)"

definition initialState :: mapper_state where
  "initialState = \<lparr> stderr = [], settled = Pending \<rparr>"

definition runEvents :: "child_event list \<Rightarrow> mapper_state" where
  "runEvents evs = foldl onEvent initialState evs"

text \<open>An option of the argument list is followed by its value.\<close>

fun flagPairs :: "'a list \<Rightarrow> ('a \<times> 'a) list" where
  "flagPairs (f # v # rest) = (f, v) # flagPairs rest"
| "flagPairs _ = []"

text \<open>Everything the child has written to stderr, in order.\<close>

fun emitted :: "child_event list \<Rightarrow> jsstring" where
  "emitted [] = []"
| "emitted (StderrData d # evs) = d @ emitted evs"
| "emitted (_ # evs) = emitted evs"

section \<open>The world outside the process\<close>

text \<open>
  The file system maps a path to what is there. Only the calls \<^verbatim>\<open>index.js\<close> makes are
  modelled: \<^verbatim>\<open>mkdtemp\<close>, \<^verbatim>\<open>writeFile\<close>, \<^verbatim>\<open>readFile\<close> and the recursive, forced \<^verbatim>\<open>rm\<close>.
\<close>

datatype node = File jsstring | Dir

type_synonym filesystem = "jsstring \<Rightarrow> node option"

text \<open>
  One HTTP exchange, as the remote end and the network decide it: when \<^verbatim>\<open>fetch\<close> would
  settle (milliseconds after the call) and with what, a rejection or the status of the
  response; how long after that \<^verbatim>\<open>resp.json()\<close> would settle and with what, a rejection
  (the body is not JSON, the transfer fails) or the parsed value.
\<close>

record http_exchange =
  head_at :: nat
  head :: "exn + nat"
  body_after :: nat
  body_json :: "exn + jsvalue"

text \<open>What the YARRRML parser hands back: the value of \<^verbatim>\<open>convert\<close> and, if the object has one, its logger.\<close>

record logger =
  has_error :: bool
  getAll :: jsvalue

record conversion =
  converted :: jsvalue
  getLogger :: "logger option"

text \<open>
  Everything the handler does not decide itself is a field of the world: the library
  functions (\<^verbatim>\<open>new URL\<close>, \<^verbatim>\<open>JSON.stringify(v, null, 2)\<close>, the YARRRML parser, the N3
  writer), the random job identifier and the temporary directory, the random number
  \<^verbatim>\<open>mkdtemp\<close> draws the name of the directory from, the answer to the \<open>n\<close>-th request of a
  job, the failures of the file system calls and the errors they throw, how many of the
  fetches still in flight get to their write before the removal of the working directory
  has taken effect, and what the child process does (its events and the file system it
  leaves) when it is spawned.
\<close>

record world =
  parseURL :: url_parser
  JSON_stringify :: "jsvalue \<Rightarrow> jsstring"
  convert :: "jsstring \<Rightarrow> exn + conversion"
  writeQuads :: "jsvalue list \<Rightarrow> exn + jsstring"
  randomUUID :: jsstring
  tmpdir :: jsstring
  mkdtemp_result :: "filesystem \<Rightarrow> jsstring \<Rightarrow> exn + nat"
  exchange :: "nat \<Rightarrow> jsstring \<Rightarrow> http_exchange"
  enoent :: "jsstring \<Rightarrow> exn"
  eisdir :: "jsstring \<Rightarrow> exn"
  write_error :: "filesystem \<Rightarrow> jsstring \<Rightarrow> jsstring \<Rightarrow> exn option"
  read_error :: "filesystem \<Rightarrow> jsstring \<Rightarrow> exn option"
  rm_error :: "filesystem \<Rightarrow> jsstring \<Rightarrow> exn option"
  rm_overtaken :: nat
  child :: "spawn_call \<Rightarrow> filesystem \<Rightarrow> child_event list \<times> filesystem"

text \<open>
  \<^verbatim>\<open>fs.mkdtemp(prefix)\<close> appends six characters, letters and digits drawn at random,
  and creates the directory. Whether it fails is for the world to say.
\<close>

definition tempAlphabet :: jsstring where
  "tempAlphabet = js ''ABCDEFGHIJKLMNOPQRSTUVWXYZabcdefghijklmnopqrstuvwxyz0123456789''"

definition tempChars :: "nat \<Rightarrow> jsstring" where
  "tempChars n = map (\<lambda>i. tempAlphabet ! ((n div 62 ^ i) mod 62)) [0, 1, 2, 3, 4, 5]"

definition mkdtemp :: "world \<Rightarrow> filesystem \<Rightarrow> jsstring \<Rightarrow> exn + (jsstring \<times> filesystem)" where
  "mkdtemp w fs prefix =
     (case mkdtemp_result w fs prefix of
        Inl err \<Rightarrow> Inl err
      | Inr n \<Rightarrow> Inr (prefix @ tempChars n, fs(prefix @ tempChars n \<mapsto> Dir)))"

text \<open>
  \<^verbatim>\<open>path.dirname\<close>: the path without its last segment and the separators around it;
  \<^verbatim>\<open>/\<close> when only the root is left, \<^verbatim>\<open>.\<close> when nothing is.
\<close>

definition dirname :: "jsstring \<Rightarrow> jsstring" where
  "dirname p =
     (let r = dropWhile (\<lambda>c. c = 0x2F) (rev p);
          r' = dropWhile (\<lambda>c. c \<noteq> 0x2F) r;
          r'' = dropWhile (\<lambda>c. c = 0x2F) r' in
      if r' = [] then (if startsWith p (js ''/'') then js ''/'' else js ''.'')
      else if r'' = [] then js ''/''
      else rev r'')"

text \<open>
  \<^verbatim>\<open>fs.writeFile(path, content)\<close> creates or replaces a file. It does not create
  directories: it fails when the directory of the path is not there (ENOENT, ENOTDIR) and
  when the path is a directory (EISDIR), and otherwise when the world says so.
\<close>

definition writeFile :: "world \<Rightarrow> filesystem \<Rightarrow> jsstring \<Rightarrow> jsstring \<Rightarrow> exn + filesystem" where
  "writeFile w fs path content =
     (if fs (dirname path) \<noteq> Some Dir then Inl (enoent w path)
      else if fs path = Some Dir then Inl (eisdir w path)
      else (case write_error w fs path content of
              Some err \<Rightarrow> Inl err
            | None \<Rightarrow> Inr (fs(path \<mapsto> File content))))"

definition readFile :: "world \<Rightarrow> filesystem \<Rightarrow> jsstring \<Rightarrow> exn + jsstring" where
  "readFile w fs path =
     (case fs path of
        None \<Rightarrow> Inl (enoent w path)
      | Some Dir \<Rightarrow> Inl (eisdir w path)
      | Some (File content) \<Rightarrow>
          (case read_error w fs path of Some err \<Rightarrow> Inl err | None \<Rightarrow> Inr content))"

text \<open>
  \<^verbatim>\<open>fs.rm(path, { recursive: true, force: true })\<close> removes the path and all below it;
  a path that is not there is no error. A removal that fails is taken to remove nothing.
\<close>

definition below :: "jsstring \<Rightarrow> jsstring \<Rightarrow> bool" where
  "below dir q =
     startsWith q (if dir \<noteq> [] \<and> last dir = 0x2F then dir else dir @ js ''/'')"

definition rm :: "world \<Rightarrow> filesystem \<Rightarrow> jsstring \<Rightarrow> exn + filesystem" where
  "rm w fs path =
     (case rm_error w fs path of
        Some err \<Rightarrow> Inl err
      | None \<Rightarrow> Inr (\<lambda>q. if q = path \<or> below path q then None else fs q))"

text \<open>
  \<^verbatim>\<open>path.join(dir, name)\<close> where \<open>dir\<close> is the root or a normalized path that does not
  end in a separator (the temporary directory, the working directory) and \<open>name\<close> is a
  single segment other than \<^verbatim>\<open>..\<close>: the segment \<^verbatim>\<open>.\<close> and the empty segment name the
  directory itself, and no separator is added after the root.
\<close>

definition pathJoin :: "jsstring \<Rightarrow> jsstring \<Rightarrow> jsstring" where
  "pathJoin dir name =
     (if name = [] \<or> name = js ''.'' then (if dir = [] then js ''.'' else dir)
      else if dir = [] then name
      else if last dir = 0x2F then dir @ name
      else dir @ js ''/'' @ name)"

section \<open>Resource fetcher\<close>

text \<open>
  The rejection of an aborted \<^verbatim>\<open>fetch\<close> or \<^verbatim>\<open>resp.json()\<close>.
\<close>

definition abortError :: exn where
  "abortError = Exn (js ''AbortError'') (js ''This operation was aborted'')"

text \<open>
  \<^verbatim>\<open>setTimeout(f, after)\<close>: Node takes a delay that is not a number from 1 to
  \<open>2\<^sup>3\<^sup>1 - 1\<close> (a \<^verbatim>\<open>NaN\<close>, an infinity, a value below 1 or above the bound) as 1, and
  counts whole milliseconds.
\<close>

definition timerDelay :: "jsnumber \<Rightarrow> nat" where
  "timerDelay after =
     (case after of
        Finite q \<Rightarrow> if 1 \<le> q \<and> q \<le> 2147483647 then nat \<lfloor>q\<rfloor> else 1
      | _ \<Rightarrow> 1)"

text \<open>
  The two awaits of \<open>fetchJsonToFile\<close> before the write, on one time line: the timer,
  set with \<^verbatim>\<open>setTimeout(() => ac.abort(), FETCH_TIMEOUT_MS)\<close>, aborts whichever of them
  is still pending when it fires. The result is the time at which the function goes on
  (or throws) and the parsed body (or the error thrown). \<^verbatim>\<open>resp.ok\<close> is a status from
  200 to 299.
\<close>

definition fetchSettles :: "jsnumber \<Rightarrow> http_exchange \<Rightarrow> nat \<times> (exn + jsvalue)" where
  "fetchSettles after ex =
     (let timeout = timerDelay after in
      if timeout \<le> head_at ex then (timeout, Inl abortError)
      else (case head ex of
              Inl err \<Rightarrow> (head_at ex, Inl err)
            | Inr status \<Rightarrow>
                if \<not> (200 \<le> status \<and> status \<le> 299)
                  then (head_at ex, Inl (newError (js ''Fetch failed: HTTP '' @ numToString status)))
                else if timeout \<le> head_at ex + body_after ex then (timeout, Inl abortError)
                else (case body_json ex of
                        Inl err \<Rightarrow> (head_at ex + body_after ex, Inl err)
                      | Inr json \<Rightarrow> (head_at ex + body_after ex, Inr json))))"

text \<open>
  \<open>fetchJsonToFile\<close>, called as the \<open>n\<close>-th request of a job: \<open>None\<close> when the promise
  resolves, the error when it rejects, and the file system it leaves.
\<close>

definition fetchJsonToFile ::
  "env \<Rightarrow> world \<Rightarrow> nat \<Rightarrow> jsstring \<Rightarrow> jsstring \<Rightarrow> filesystem \<Rightarrow> exn option \<times> filesystem" where
  "fetchJsonToFile e w n resourceUrl outPath fs =
     (case snd (fetchSettles (FETCH_TIMEOUT_MS e) (exchange w n resourceUrl)) of
        Inl err \<Rightarrow> (Some err, fs)
      | Inr json \<Rightarrow>
          (case writeFile w fs outPath (JSON_stringify w json) of
             Inl err \<Rightarrow> (Some err, fs)
           | Inr fs' \<Rightarrow> (None, fs')))"

section \<open>The request handler\<close>

text \<open>
  A request: the \<^verbatim>\<open>serialization\<close> query parameter (absent, or one string) and the body
  as \<^verbatim>\<open>express.json\<close> left it. A response: \<^verbatim>\<open>res.status(n).json(v)\<close>, or
  \<^verbatim>\<open>res.status(n).set("Content-Type", t).send(text)\<close>.
\<close>

record request =
  query_serialization :: "jsstring option"
  req_body :: jsvalue

datatype response =
    Json nat jsvalue
  | Send nat jsstring jsstring

text \<open>
  The calls a run makes to the world, in the order it makes them; \<^verbatim>\<open>mkdtemp\<close> is listed
  with the directory it returns (when it throws, the handler ends there). A run is the
  list of them (those of the fetches that are still in flight when the handler returns
  included), the file system when all is over, the response sent, how the \<^verbatim>\<open>async\<close>
  function ended, and two observations made on the way: the file system at the moment
  \<^verbatim>\<open>Promise.all\<close> resolved, and the invocation and the file system at the moment the
  engine was spawned. The function never ends while it awaits a child that does not close.
\<close>

datatype effect =
    Mkdtemp jsstring
  | Fetch jsstring
  | WriteFile jsstring jsstring
  | Convert jsstring
  | Spawn spawn_call
  | ReadFile jsstring
  | Rm jsstring

datatype completion = Returned | Threw exn | Hung

record outcome =
  response :: "response option"
  effects :: "effect list"
  files :: filesystem
  completion :: completion
  at_fetched :: "filesystem option"
  at_spawn :: "(spawn_call \<times> filesystem) option"

text \<open>
  Reading a property of a parsed JSON value: an object has the properties of its
  list, every other value has none of the four names the handler reads
  (\<^verbatim>\<open>yarrml\<close>, \<^verbatim>\<open>resources\<close>, \<^verbatim>\<open>resourceUrl\<close>, \<^verbatim>\<open>fileName\<close>). The handler reads a
  property only of a value it has tested, so never of \<^verbatim>\<open>null\<close> or \<^verbatim>\<open>undefined\<close>.
\<close>

definition getProp :: "jsvalue \<Rightarrow> jsstring \<Rightarrow> jsvalue" where
  "getProp v k =
     (case v of
        JObject kvs \<Rightarrow> (case map_of kvs k of Some x \<Rightarrow> x | None \<Rightarrow> JUndefined)
      | _ \<Rightarrow> JUndefined)"

text \<open>
  \<^verbatim>\<open>r && typeof r.resourceUrl === "string" ? r.resourceUrl.trim() : ""\<close>, and the
  argument and result of \<open>sanitizeFilename\<close> for an entry. A falsy \<open>r\<close> and an \<open>r\<close>
  without the property both take the \<^verbatim>\<open>""\<close> branch.
\<close>

definition resourceUrlOf :: "jsvalue \<Rightarrow> jsstring" where
  "resourceUrlOf r = (case getProp r (js ''resourceUrl'') of JString s \<Rightarrow> trim s | _ \<Rightarrow> [])"

definition fileNameOf :: "jsvalue \<Rightarrow> jsvalue" where
  "fileNameOf r =
     sanitizeFilename
       (case getProp r (js ''fileName'') of JString s \<Rightarrow> JString s | _ \<Rightarrow> JString [])
       (JString (js ''data.json''))"

text \<open>The string of a value that is one (\<open>sanitizeFilename\<close> with a string fallback returns a string).\<close>

definition stringOf :: "jsvalue \<Rightarrow> jsstring" where
  "stringOf v = (case v of JString s \<Rightarrow> s | _ \<Rightarrow> [])"

definition errorBody :: "jsstring \<Rightarrow> jsvalue" where
  "errorBody msg = JObject [(js ''error'', JString msg)]"

text \<open>
  The validation loop. It returns from the handler with a response at the first entry it
  refuses; \<open>isAllowedHost\<close> could throw out of it.
\<close>

datatype validation =
    Refused response
  | Raised exn
  | Accepted "(jsstring \<times> jsstring) list"

fun validate ::
  "env \<Rightarrow> url_parser \<Rightarrow> jsvalue list \<Rightarrow> (jsstring \<times> jsstring) list \<Rightarrow> validation" where
  "validate e parse [] normalized = Accepted normalized"
| "validate e parse (r # rs) normalized =
     (let resourceUrl = resourceUrlOf r in
      if resourceUrl = [] then
        Refused (Json 400 (errorBody (js ''Each resource must have resourceUrl'')))
      else if \<not> isHttpUrl parse resourceUrl then
        Refused (Json 400 (errorBody (js ''resourceUrl must be http(s): '' @ resourceUrl)))
      else
        (case isAllowedHost e parse resourceUrl of
           Inl err \<Rightarrow> Raised err
         | Inr allowed \<Rightarrow>
             if \<not> allowed then
               Refused (Json 403 (errorBody
                 (js ''resourceUrl host not allowed by ALLOWED_FETCH_HOSTS: '' @ resourceUrl)))
             else
               validate e parse rs (normalized @ [(resourceUrl, stringOf (fileNameOf r))])))"

text \<open>A fetch on its way: when it settles, with what, and the path it writes to.\<close>

type_synonym settled_fetch = "nat \<times> (exn + jsvalue) \<times> jsstring"

text \<open>
  The state the steps of the handler pass on: the file system, the calls made so far,
  the fetches that have not settled yet, and the two observations.
\<close>

record state =
  fs_now :: filesystem
  calls :: "effect list"
  in_flight :: "settled_fetch list"
  fetched :: "filesystem option"
  spawned :: "(spawn_call \<times> filesystem) option"

definition startState :: "jsstring \<Rightarrow> filesystem \<Rightarrow> state" where
  "startState dir fs =
     \<lparr> fs_now = fs, calls = [Mkdtemp dir], in_flight = [], fetched = None, spawned = None \<rparr>"

text \<open>
  \<^verbatim>\<open>Promise.all\<close> over the fetches. Every \<open>fetchJsonToFile\<close> runs up to its first
  \<^verbatim>\<open>await\<close> when it is called, so all requests are issued first, in list order. The
  fetches then go on in the order in which they settle (as \<open>fetchSettles\<close> tells; the
  list order among equal times): one that has its JSON writes its file, and the first one
  to throw rejects the \<^verbatim>\<open>Promise.all\<close>. Nothing awaits or cancels the fetches that have
  not settled by then: they stay in flight, and the handler goes on without them.
\<close>

definition issued :: "env \<Rightarrow> world \<Rightarrow> jsstring \<Rightarrow> (jsstring \<times> jsstring) list
    \<Rightarrow> settled_fetch list" where
  "issued e w dir normalized =
     map (\<lambda>(n, (resourceUrl, fileName)).
            (fst (fetchSettles (FETCH_TIMEOUT_MS e) (exchange w n resourceUrl)),
             snd (fetchSettles (FETCH_TIMEOUT_MS e) (exchange w n resourceUrl)),
             pathJoin dir fileName))
         (enumerate 0 normalized)"

fun settleAll :: "world \<Rightarrow> state \<Rightarrow> settled_fetch list \<Rightarrow> exn option \<times> state" where
  "settleAll w st [] = (None, st)"
| "settleAll w st ((t, Inl err, outPath) # rest) = (Some err, st\<lparr>in_flight := rest\<rparr>)"
| "settleAll w st ((t, Inr json, outPath) # rest) =
     (let content = JSON_stringify w json;
          st1 = st\<lparr>calls := calls st @ [WriteFile outPath content]\<rparr> in
      case writeFile w (fs_now st) outPath content of
        Inl err \<Rightarrow> (Some err, st1\<lparr>in_flight := rest\<rparr>)
      | Inr fs' \<Rightarrow> settleAll w (st1\<lparr>fs_now := fs'\<rparr>) rest)"

definition fetchAll ::
  "env \<Rightarrow> world \<Rightarrow> jsstring \<Rightarrow> (jsstring \<times> jsstring) list \<Rightarrow> state \<Rightarrow> exn option \<times> state" where
  "fetchAll e w dir normalized st =
     settleAll w (st\<lparr>calls := calls st @ map (\<lambda>(resourceUrl, fileName). Fetch resourceUrl) normalized\<rparr>)
       (sort_key fst (issued e w dir normalized))"

text \<open>
  What the fetches in flight still do: each goes on when it settles, and one that has its
  JSON calls \<^verbatim>\<open>fs.writeFile\<close> as it would have; its promise settles unobserved, so a
  failure changes nothing.
\<close>

fun lateWrites :: "world \<Rightarrow> state \<Rightarrow> settled_fetch list \<Rightarrow> state" where
  "lateWrites w st [] = st"
| "lateWrites w st ((t, Inl err, outPath) # rest) = lateWrites w st rest"
| "lateWrites w st ((t, Inr json, outPath) # rest) =
     (let content = JSON_stringify w json;
          st1 = st\<lparr>calls := calls st @ [WriteFile outPath content]\<rparr> in
      case writeFile w (fs_now st) outPath content of
        Inl err \<Rightarrow> lateWrites w st1 rest
      | Inr fs' \<Rightarrow> lateWrites w (st1\<lparr>fs_now := fs'\<rparr>) rest)"

text \<open>\<^verbatim>\<open>typeof\<close> of a value.\<close>

definition typeOf :: "jsvalue \<Rightarrow> jsstring" where
  "typeOf v =
     (case v of
        JUndefined \<Rightarrow> js ''undefined''
      | JBoolean b \<Rightarrow> js ''boolean''
      | JNumber n \<Rightarrow> js ''number''
      | JString s \<Rightarrow> js ''string''
      | _ \<Rightarrow> js ''object'')"

text \<open>The three shapes of the converter's result.\<close>

definition toTurtle :: "world \<Rightarrow> jsvalue \<Rightarrow> exn + jsstring" where
  "toTurtle w conv =
     (case conv of
        JString s \<Rightarrow> Inr s
      | JArray quads \<Rightarrow> writeQuads w quads
      | _ \<Rightarrow> Inl (newError (js ''Unexpected yarrrml convert() return type: '' @ typeOf conv)))"

text \<open>
  The message of the \<^verbatim>\<open>catch\<close> block, \<^verbatim>\<open>err && err.message ? err.message : String(err)\<close>:
  the string of an error whose message is empty is its name.
\<close>

definition errMessage :: "exn \<Rightarrow> jsstring" where
  "errMessage err = (if message err \<noteq> [] then message err else exn_name err)"

text \<open>How the \<^verbatim>\<open>try\<close> block is left: by a \<^verbatim>\<open>return\<close> or its end after a response, by a throw, or never.\<close>

datatype exit = Responded response | Thrown exn | Never

text \<open>Steps 4 and 5: run the mapper, read its output, send it.\<close>

definition runAndReturn :: "env \<Rightarrow> world \<Rightarrow> mapper_params \<Rightarrow> state \<Rightarrow> exit \<times> state" where
  "runAndReturn e w p st =
     (let call = mapperSpawn e p;
          st1 = st\<lparr>calls := calls st @ [Spawn call], spawned := Some (call, fs_now st)\<rparr>;
          (events, fs') = child w call (fs_now st);
          st2 = st1\<lparr>fs_now := fs'\<rparr> in
      case settled (runEvents events) of
        Pending \<Rightarrow> (Never, st2)
      | Rejected err \<Rightarrow> (Thrown err, st2)
      | Resolved diagnostics \<Rightarrow>
          (let st3 = st2\<lparr>calls := calls st2 @ [ReadFile (outputPath p)]\<rparr> in
           case readFile w (fs_now st3) (outputPath p) of
             Inl err \<Rightarrow> (Thrown err, st3)
           | Inr out \<Rightarrow>
               (Responded (Send 200
                  (contentTypeFor (JString (serialization p)) @ js ''; charset=utf-8'') out), st3)))"

text \<open>Steps 2 and 3, then the rest: convert, check the logger, write the mapping.\<close>

definition convertAndRun ::
  "env \<Rightarrow> world \<Rightarrow> jsstring \<Rightarrow> mapper_params \<Rightarrow> state \<Rightarrow> exit \<times> state" where
  "convertAndRun e w yarrml p st =
     (let st1 = st\<lparr>calls := calls st @ [Convert yarrml]\<rparr> in
      case convert w yarrml of
        Inl err \<Rightarrow> (Thrown err, st1)
      | Inr y2r \<Rightarrow>
          if (case getLogger y2r of None \<Rightarrow> False | Some lg \<Rightarrow> has_error lg) then
            (Responded (Json 422 (JObject
               [(js ''error'', JString (js ''YARRRML conversion failed'')),
                (js ''logs'', (case getLogger y2r of None \<Rightarrow> JUndefined | Some lg \<Rightarrow> getAll lg))])),
             st1)
          else
            (case toTurtle w (converted y2r) of
               Inl err \<Rightarrow> (Thrown err, st1)
             | Inr rmlTurtle \<Rightarrow>
                 (let st2 = st1\<lparr>calls := calls st1 @ [WriteFile (mappingPath p) rmlTurtle]\<rparr> in
                  case writeFile w (fs_now st2) (mappingPath p) rmlTurtle of
                    Inl err \<Rightarrow> (Thrown err, st2)
                  | Inr fs' \<Rightarrow> runAndReturn e w p (st2\<lparr>fs_now := fs'\<rparr>))))"

text \<open>The \<^verbatim>\<open>try\<close> block.\<close>

definition tryBlock ::
  "env \<Rightarrow> world \<Rightarrow> jsstring \<Rightarrow> (jsstring \<times> jsstring) list \<Rightarrow> mapper_params \<Rightarrow> state \<Rightarrow> exit \<times> state" where
  "tryBlock e w yarrml normalized p st =
     (case fetchAll e w (workdir p) normalized st of
        (Some err, st1) \<Rightarrow> (Thrown err, st1)
      | (None, st1) \<Rightarrow> convertAndRun e w yarrml p (st1\<lparr>fetched := Some (fs_now st1)\<rparr>))"

text \<open>
  \<^verbatim>\<open>try { ... } catch (err) { res.status(422).json(...) } finally { try { await fs.rm(...) } catch {} }\<close>
  The removal is called as soon as the \<^verbatim>\<open>try\<close> block is left and takes effect some time
  later; the fetches still in flight go on meanwhile and afterwards. An error of the
  removal is caught and dropped.
\<close>

definition finallyBlock :: "world \<Rightarrow> jsstring \<Rightarrow> response \<Rightarrow> state \<Rightarrow> outcome" where
  "finallyBlock w dir res st =
     (let st1 = lateWrites w (st\<lparr>calls := calls st @ [Rm dir]\<rparr>)
                  (take (rm_overtaken w) (in_flight st));
          fs2 = (case rm w (fs_now st1) dir of Inl err \<Rightarrow> fs_now st1 | Inr fs' \<Rightarrow> fs');
          st3 = lateWrites w (st1\<lparr>fs_now := fs2\<rparr>) (drop (rm_overtaken w) (in_flight st))
      in \<lparr> response = Some res,
           effects = calls st3,
           files = fs_now st3,
           completion = Returned,
           at_fetched = fetched st,
           at_spawn = spawned st \<rparr>)"

definition catchFinally :: "world \<Rightarrow> jsstring \<Rightarrow> exit \<times> state \<Rightarrow> outcome" where
  "catchFinally w dir r =
     (case r of
        (Never, st) \<Rightarrow>
          \<lparr> response = None, effects = calls st, files = fs_now st, completion = Hung,
            at_fetched = fetched st, at_spawn = spawned st \<rparr>
      | (Responded res, st) \<Rightarrow> finallyBlock w dir res st
      | (Thrown err, st) \<Rightarrow>
          finallyBlock w dir
            (Json 422 (JObject [(js ''error'', JString (js ''Mapping failed'')),
                                (js ''message'', JString (errMessage err))])) st)"

text \<open>A response sent by a \<^verbatim>\<open>return\<close> before anything is touched, and a throw out of the function.\<close>

definition early :: "response \<Rightarrow> filesystem \<Rightarrow> outcome" where
  "early res fs =
     \<lparr> response = Some res, effects = [], files = fs, completion = Returned,
       at_fetched = None, at_spawn = None \<rparr>"

definition rejected :: "exn \<Rightarrow> filesystem \<Rightarrow> outcome" where
  "rejected err fs =
     \<lparr> response = None, effects = [], files = fs, completion = Threw err,
       at_fetched = None, at_spawn = None \<rparr>"

definition DEFAULT_SERIALIZATION_const :: "env \<Rightarrow> jsstring" where
  "DEFAULT_SERIALIZATION_const e = trim (orDefault (DEFAULT_SERIALIZATION e) (js ''nquads''))"

text \<open>
  \<^verbatim>\<open>const baseIri = (process.env.BASE_IRI || "").trim()\<close>, passed as
  \<^verbatim>\<open>baseIri ? baseIri : undefined\<close>.
\<close>

definition handlerBaseIri :: "env \<Rightarrow> jsstring option" where
  "handlerBaseIri e =
     (let b = trim (orDefault (BASE_IRI e) []) in if b \<noteq> [] then Some b else None)"

text \<open>
  \<^verbatim>\<open>app.post("/map", async (req, res) => ...)\<close>. A throw of \<^verbatim>\<open>fs.mkdtemp\<close> is outside
  the \<^verbatim>\<open>try\<close>: the function rejects and no response is sent. \<^verbatim>\<open>req.body || {}\<close> needs
  no case of its own: a falsy body has no property, as \<^verbatim>\<open>{}\<close> has none.
\<close>

definition handler :: "env \<Rightarrow> world \<Rightarrow> request \<Rightarrow> filesystem \<Rightarrow> outcome" where
  "handler e w req fs =
     (let serialization =
            trim (orDefault (query_serialization req) (DEFAULT_SERIALIZATION_const e));
          yarrml = getProp (req_body req) (js ''yarrml'') in
      if (case yarrml of JString y \<Rightarrow> trim y = [] | _ \<Rightarrow> True) then
        early (Json 400 (JObject
          [(js ''error'', JString (js ''Missing yarrml'')),
           (js ''hint'', JString (js ''Body must include: { \"yarrml\": \"...\", \"resources\": [...] }''))])) fs
      else
        (case getProp (req_body req) (js ''resources'') of
           JArray (r # rs) \<Rightarrow>
             (case validate e (parseURL w) (r # rs) [] of
                Refused res \<Rightarrow> early res fs
              | Raised err \<Rightarrow> rejected err fs
              | Accepted normalized \<Rightarrow>
                  (let jobId = randomUUID w;
                       prefix = pathJoin (tmpdir w) (js ''mapjob-'' @ jobId @ js ''-'') in
                   case mkdtemp w fs prefix of
                     Inl err \<Rightarrow> rejected err fs
                   | Inr (dir, fs1) \<Rightarrow>
                       (let p = \<lparr> workdir = dir,
                                  mappingPath = pathJoin dir (js ''mapping.ttl''),
                                  outputPath = pathJoin dir (js ''output.'' @ outputExt serialization),
                                  serialization = serialization,
                                  baseIri = handlerBaseIri e \<rparr> in
                        catchFinally w dir
                          (tryBlock e w (stringOf yarrml) normalized p (startState dir fs1)))))
         | _ \<Rightarrow>
             early (Json 400 (JObject
               [(js ''error'', JString (js ''Missing resources'')),
                (js ''hint'', JString (js ''Provide: \"resources\": [ { \"resourceUrl\": \"...\", \"fileName\": \"data.json\" } ]''))])) fs))"

section \<open>Kinds of calls\<close>

datatype kind = KMkdtemp | KFetch | KWrite | KConvert | KSpawn | KRead | KRm

fun kindOf :: "effect \<Rightarrow> kind" where
  "kindOf (Mkdtemp d) = KMkdtemp"
| "kindOf (Fetch u) = KFetch"
| "kindOf (WriteFile p c) = KWrite"
| "kindOf (Convert y) = KConvert"
| "kindOf (Spawn c) = KSpawn"
| "kindOf (ReadFile p) = KRead"
| "kindOf (Rm p) = KRm"

text \<open>The calls of some kinds among a list of calls, in order.\<close>

definition ofKind :: "kind set \<Rightarrow> effect list \<Rightarrow> effect list" where
  "ofKind K xs = filter (\<lambda>x. kindOf x \<in> K) xs"

text \<open>The writes that fetches call once they have settled: one for each that has its JSON.\<close>

fun writesOf :: "world \<Rightarrow> settled_fetch list \<Rightarrow> effect list" where
  "writesOf w [] = []"
| "writesOf w ((t, Inl err, outPath) # rest) = writesOf w rest"
| "writesOf w ((t, Inr json, outPath) # rest) =
     WriteFile outPath (JSON_stringify w json) # writesOf w rest"

section \<open>Paths of a job\<close>

text \<open>
  The paths the fetches of a job write to: the working directory itself (for the name
  \<^verbatim>\<open>.\<close>) or a file directly in it.
\<close>

definition inDir :: "jsstring \<Rightarrow> jsstring \<Rightarrow> bool" where
  "inDir dir path \<longleftrightarrow>
     path = dir \<or> (\<exists>name. name \<noteq> [] \<and> 0x2F \<notin> set name \<and> path = dir @ js ''/'' @ name)"

text \<open>A directory that is not there, with nothing at any path below it.\<close>

definition gone :: "jsstring \<Rightarrow> filesystem \<Rightarrow> bool" where
  "gone dir fs \<longleftrightarrow> fs dir \<noteq> Some Dir \<and> (\<forall>q. startsWith q (dir @ js ''/'') \<longrightarrow> fs q = None)"

section \<open>Notions of the specification\<close>

text \<open>
  An entry of the resource list that the specification refuses: its \<^verbatim>\<open>resourceUrl\<close> is
  missing (not a string, or blank), or does not parse, or is not HTTP(S), or names a host
  that is not among the entries of a non-empty allow-list.
\<close>

definition refusedEntry :: "env \<Rightarrow> url_parser \<Rightarrow> jsvalue \<Rightarrow> bool" where
  "refusedEntry e parse r \<longleftrightarrow>
     (case getProp r (js ''resourceUrl'') of
        JString s \<Rightarrow>
          trim s = [] \<or>
          (case parse (trim s) of
             None \<Rightarrow> True
           | Some url \<Rightarrow>
               (protocol url \<noteq> js ''http:'' \<and> protocol url \<noteq> js ''https:'') \<or>
               (allowList e \<noteq> [] \<and> hostname url \<notin> set (allowList e)))
      | _ \<Rightarrow> True)"

text \<open>A validation failure is a JSON response with status 400 or 403.\<close>

definition validationFailure :: "response \<Rightarrow> bool" where
  "validationFailure res \<longleftrightarrow>
     (case res of Json status body \<Rightarrow> status = 400 \<or> status = 403 | _ \<Rightarrow> False)"

section \<open>Example configuration\<close>

text \<open>A configuration with no variable set, and a URL parser that knows three URLs.\<close>

definition env0 :: env where
  "env0 = \<lparr> ALLOWED_FETCH_HOSTS = None, BASE_IRI = None, RMLMAPPER_JAR = None,
            DEFAULT_SERIALIZATION = None, FETCH_TIMEOUT_MS = Finite 30000 \<rparr>"

definition params0 :: mapper_params where
  "params0 = \<lparr> workdir = js ''/tmp/job'', mappingPath = js ''/tmp/job/mapping.ttl'',
               outputPath = js ''/tmp/job/output.nq'', serialization = [], baseIri = None \<rparr>"

definition parse0 :: url_parser where
  "parse0 u =
     (if u = js ''https://example.com/a.json''
        then Some \<lparr> protocol = js ''https:'', hostname = js ''example.com'' \<rparr>
      else if u = js ''https://sub.example.com/a.json''
        then Some \<lparr> protocol = js ''https:'', hostname = js ''sub.example.com'' \<rparr>
      else if u = js ''ftp://example.com/a.json''
        then Some \<lparr> protocol = js ''ftp:'', hostname = js ''example.com'' \<rparr>
      else None)"

text \<open>
  A world for the examples: one resource answers 200 with a JSON string after 45 ms, one
  answers 500, every other request stays without an answer for a minute; the converter
  reports an error for the mapping \<^verbatim>\<open>bad\<close>; the engine writes one statement to its
  output path and exits with code 0; no file system call fails.
\<close>

definition stringify0 :: "jsvalue \<Rightarrow> jsstring" where
  "stringify0 v = (case v of JString s \<Rightarrow> [0x22] @ s @ [0x22] | _ \<Rightarrow> js ''null'')"

definition exchange0 :: "nat \<Rightarrow> jsstring \<Rightarrow> http_exchange" where
  "exchange0 n u =
     (if u = js ''https://example.com/a.json''
        then \<lparr> head_at = 40, head = Inr 200, body_after = 5, body_json = Inr (JString (js ''hello'')) \<rparr>
      else if u = js ''https://sub.example.com/a.json''
        then \<lparr> head_at = 10, head = Inr 500, body_after = 0, body_json = Inr JNull \<rparr>
      else \<lparr> head_at = 60000, head = Inr 200, body_after = 0, body_json = Inr JNull \<rparr>)"

definition convert0 :: "jsstring \<Rightarrow> exn + conversion" where
  "convert0 y =
     (if y = js ''bad''
        then Inr \<lparr> converted = JUndefined,
                   getLogger = Some \<lparr> has_error = True, getAll = JArray [JString (js ''error: bad'')] \<rparr> \<rparr>
      else Inr \<lparr> converted = JString (js ''# rml '' @ y),
                 getLogger = Some \<lparr> has_error = False, getAll = JArray [] \<rparr> \<rparr>)"

definition child0 :: "spawn_call \<Rightarrow> filesystem \<Rightarrow> child_event list \<times> filesystem" where
  "child0 call fs =
     ([StderrData (js ''warn''), ProcClose (Some 0)],
      fs(args call ! 5 \<mapsto> File (js ''<s> <p> <o> .'')))"

definition world0 :: world where
  "world0 = \<lparr> parseURL = parse0, JSON_stringify = stringify0, convert = convert0,
     writeQuads = (\<lambda>q. Inr (js ''quads'')), randomUUID = js ''1234'', tmpdir = js ''/tmp'',
     mkdtemp_result = (\<lambda>fs prefix. Inr 28466144010), exchange = exchange0,
     enoent = (\<lambda>path. Exn (js ''Error'') (js ''ENOENT'')),
     eisdir = (\<lambda>path. Exn (js ''Error'') (js ''EISDIR'')),
     write_error = (\<lambda>fs path content. None), read_error = (\<lambda>fs path. None),
     rm_error = (\<lambda>fs path. None), rm_overtaken = 0, child = child0 \<rparr>"

definition resource :: "string \<Rightarrow> string \<Rightarrow> jsvalue" where
  "resource u f = JObject [(js ''resourceUrl'', JString (js u)), (js ''fileName'', JString (js f))]"

definition req0 :: "string \<Rightarrow> jsvalue list \<Rightarrow> request" where
  "req0 y rs = \<lparr> query_serialization = Some (js ''turtle''),
     req_body = JObject [(js ''yarrml'', JString (js y)), (js ''resources'', JArray rs)] \<rparr>"

definition fs0 :: filesystem where
  "fs0 = (\<lambda>p. if p = js ''/tmp'' then Some Dir else None)"

text \<open>
  A job with two resources, the first of which answers 500 while the second is still in
  flight; and a job whose one resource is named \<^verbatim>\<open>mapping.ttl\<close>, with the engine
  invocation of its run.
\<close>

definition twoResources :: request where
  "twoResources = req0 ''ok'' [resource ''https://sub.example.com/a.json'' ''a.json'',
                               resource ''https://example.com/a.json'' ''b.json'']"

definition mappingJob :: request where
  "mappingJob = req0 ''ok'' [resource ''https://example.com/a.json'' ''mapping.ttl'']"

definition mappingSpawn :: spawn_call where
  "mappingSpawn = \<lparr> command = js ''java'',
      args = [js ''-jar'', js ''/opt/rmlmapper.jar'',
              js ''-m'', js ''/tmp/mapjob-1234-AbCdEf/mapping.ttl'',
              js ''-o'', js ''/tmp/mapjob-1234-AbCdEf/output.ttl'', js ''-s'', js ''turtle''],
      cwd = js ''/tmp/mapjob-1234-AbCdEf'' \<rparr>"

section \<open>Properties of the string functions\<close>

lemma startsWith_iff: "startsWith s x \<longleftrightarrow> (\<exists>ss. s = x @ ss)"
  by (induction s x rule: startsWith.induct) auto

lemma str_includes_iff: "str_includes s x \<longleftrightarrow> (\<exists>ps ss. s = ps @ x @ ss)"
proof (induction s)
  case Nil
  then show ?case by simp
next
  case (Cons c cs)
  show ?case
  proof
    assume "str_includes (c # cs) x"
    then consider "startsWith (c # cs) x" | "str_includes cs x" by auto
    then show "\<exists>ps ss. c # cs = ps @ x @ ss"
    proof cases
      case 1
      then obtain ss where "c # cs = x @ ss" by (auto simp: startsWith_iff)
      then have "c # cs = [] @ x @ ss" by simp
      then show ?thesis by blast
    next
      case 2
      then obtain ps ss where "cs = ps @ x @ ss" using Cons.IH by blast
      then have "c # cs = (c # ps) @ x @ ss" by simp
      then show ?thesis by blast
    qed
  next
    assume "\<exists>ps ss. c # cs = ps @ x @ ss"
    then obtain ps ss where eq: "c # cs = ps @ x @ ss" by blast
    show "str_includes (c # cs) x"
    proof (cases ps)
      case Nil
      with eq have "startsWith (c # cs) x" by (auto simp: startsWith_iff)
      then show ?thesis by simp
    next
      case (Cons p ps')
      with eq have "cs = ps' @ x @ ss" by simp
      then have "str_includes cs x" using Cons.IH by blast
      then show ?thesis by simp
    qed
  qed
qed

lemma classStar_iff: "classStar s \<longleftrightarrow> (\<forall>c \<in> set s. inClass c)"
  by (induction s) auto

lemma safeNameTest_iff: "safeNameTest s \<longleftrightarrow> s \<noteq> [] \<and> (\<forall>c \<in> set s. inClass c)"
  by (cases s) (auto simp: classStar_iff)

text \<open>
  Trimming only removes white space at the two ends: the string is the trimmed string
  between two runs of white space.
\<close>

lemma trim_decomp:
  "\<exists>l r. s = l @ trim s @ r \<and> (\<forall>c \<in> set l. isWhiteSpace c) \<and> (\<forall>c \<in> set r. isWhiteSpace c)"
proof -
  let ?l = "takeWhile isWhiteSpace s"
  let ?m = "dropWhile isWhiteSpace s"
  let ?r = "rev (takeWhile isWhiteSpace (rev ?m))"
  have "rev (takeWhile isWhiteSpace (rev ?m) @ dropWhile isWhiteSpace (rev ?m)) = rev (rev ?m)"
    by (simp only: takeWhile_dropWhile_id)
  then have "rev (dropWhile isWhiteSpace (rev ?m)) @ ?r = ?m"
    by (simp only: rev_append rev_rev_ident)
  then have m: "?m = trim s @ ?r"
    by (simp only: trim_def)
  have "s = ?l @ ?m" by simp
  with m have "s = ?l @ trim s @ ?r" by simp
  moreover have "\<forall>c \<in> set ?l. isWhiteSpace c"
    by (auto dest: set_takeWhileD)
  moreover have "\<forall>c \<in> set ?r. isWhiteSpace c"
    by (auto dest: set_takeWhileD)
  ultimately show ?thesis by blast
qed

text \<open>
  A run whose first and last characters are not white space survives trimming, so the
  candidate and its trimmed form contain the same separators.
\<close>

lemma str_includes_dropWhile:
  assumes "str_includes s x" and "x \<noteq> []" and "\<not> P (hd x)"
  shows "str_includes (dropWhile P s) x"
  using assms
proof (induction s)
  case Nil
  then show ?case by simp
next
  case (Cons c cs)
  show ?case
  proof (cases "P c")
    case True
    have "\<not> startsWith (c # cs) x"
    proof
      assume "startsWith (c # cs) x"
      then obtain ss where "c # cs = x @ ss" by (auto simp: startsWith_iff)
      with Cons.prems(2) have "hd x = c" by (cases x) auto
      with True Cons.prems(3) show False by simp
    qed
    with Cons.prems(1) have "str_includes cs x" by simp
    with Cons.IH Cons.prems(2,3) True show ?thesis by simp
  next
    case False
    with Cons.prems(1) show ?thesis by simp
  qed
qed

lemma str_includes_rev: "str_includes (rev s) (rev x) \<longleftrightarrow> str_includes s x"
proof -
  have dir: "str_includes (rev t) (rev y)" if "str_includes t y" for t y :: "'a list"
  proof -
    from that obtain ps ss where "t = ps @ y @ ss" by (auto simp: str_includes_iff)
    then have "rev t = rev ss @ rev y @ rev ps" by simp
    then show ?thesis unfolding str_includes_iff by blast
  qed
  show ?thesis using dir [of s x] dir [of "rev s" "rev x"] by auto
qed

lemma str_includes_trim:
  assumes "str_includes s x" and "x \<noteq> []"
    and "\<not> isWhiteSpace (hd x)" and "\<not> isWhiteSpace (last x)"
  shows "str_includes (trim s) x"
proof -
  have "str_includes (dropWhile isWhiteSpace s) x"
    using assms(1-3) by (rule str_includes_dropWhile)
  then have "str_includes (rev (dropWhile isWhiteSpace s)) (rev x)"
    by (simp only: str_includes_rev)
  moreover have "rev x \<noteq> []" and "\<not> isWhiteSpace (hd (rev x))"
    using assms(2,4) by (simp_all add: hd_rev)
  ultimately have "str_includes (dropWhile isWhiteSpace (rev (dropWhile isWhiteSpace s))) (rev x)"
    by (rule str_includes_dropWhile)
  then have "str_includes (rev (rev (dropWhile isWhiteSpace (rev (dropWhile isWhiteSpace s))))) (rev x)"
    by simp
  then show ?thesis
    by (simp only: str_includes_rev trim_def)
qed

lemma trim_includes: "str_includes (trim s) x \<Longrightarrow> str_includes s x"
proof -
  assume "str_includes (trim s) x"
  then obtain ps ss where t: "trim s = ps @ x @ ss" by (auto simp: str_includes_iff)
  obtain l r where "s = l @ trim s @ r" using trim_decomp by blast
  with t have "s = (l @ ps) @ x @ (ss @ r)" by simp
  then show ?thesis unfolding str_includes_iff by blast
qed

section \<open>The filename sanitizer's contract\<close>

text \<open>
  What the specification accepts as a candidate: a non-empty string whose trimmed form
  is non-empty, contains none of \<^verbatim>\<open>/\<close>, \<^verbatim>\<open>\\<close> and \<^verbatim>\<open>..\<close>, and consists of
  characters of \<^verbatim>\<open>[A-Za-z0-9._-]\<close> only.
\<close>

definition spec_acceptable :: "jsstring \<Rightarrow> bool" where
  "spec_acceptable s \<longleftrightarrow>
     s \<noteq> [] \<and> trim s \<noteq> [] \<and>
     \<not> str_includes (trim s) (js ''/'') \<and>
     \<not> str_includes (trim s) (js [CHR 0x5C]) \<and>
     \<not> str_includes (trim s) (js ''..'') \<and>
     list_all inClass (trim s)"

text \<open>
  C8. \<open>sanitizeFilename\<close> is a total function of its two arguments: on an acceptable
  string candidate it returns the trimmed candidate, on every other candidate (a value
  that is not a string included) it returns the fallback, which is \<^verbatim>\<open>"data.json"\<close>
  when the second argument is left out. In particular a candidate that contains
  \<^verbatim>\<open>/\<close>, \<^verbatim>\<open>\\<close> or \<^verbatim>\<open>..\<close> anywhere yields the fallback, and so not the candidate
  (unless the caller passes the candidate itself as the fallback).
\<close>

theorem sanitizeFilename_contract:
  "sanitizeFilename name fb =
     (case name of
        JString s \<Rightarrow>
          if spec_acceptable s then JString (trim s)
          else defaultParam (JString (js ''data.json'')) fb
      | _ \<Rightarrow> defaultParam (JString (js ''data.json'')) fb)
   \<and> (str_includes c (js ''/'') \<or> str_includes c (js [CHR 0x5C]) \<or> str_includes c (js ''..'')
        \<longrightarrow> sanitizeFilename (JString c) fb = defaultParam (JString (js ''data.json'')) fb
            \<and> (fb \<noteq> JString c \<longrightarrow> sanitizeFilename (JString c) fb \<noteq> JString c))"
proof
  show "sanitizeFilename name fb =
     (case name of
        JString s \<Rightarrow>
          if spec_acceptable s then JString (trim s)
          else defaultParam (JString (js ''data.json'')) fb
      | _ \<Rightarrow> defaultParam (JString (js ''data.json'')) fb)"
    by (cases name)
      (auto simp: sanitizeFilename_def spec_acceptable_def Let_def safeNameTest_iff list_all_iff)
next
  show "str_includes c (js ''/'') \<or> str_includes c (js [CHR 0x5C]) \<or> str_includes c (js ''..'')
        \<longrightarrow> sanitizeFilename (JString c) fb = defaultParam (JString (js ''data.json'')) fb
            \<and> (fb \<noteq> JString c \<longrightarrow> sanitizeFilename (JString c) fb \<noteq> JString c)"
  proof
    assume bad: "str_includes c (js ''/'') \<or> str_includes c (js [CHR 0x5C]) \<or> str_includes c (js ''..'')"
    then have "str_includes (trim c) (js ''/'') \<or> str_includes (trim c) (js [CHR 0x5C])
        \<or> str_includes (trim c) (js ''..'')"
      by (auto intro!: str_includes_trim simp: js_def isWhiteSpace_def)
    then have fallback: "sanitizeFilename (JString c) fb = defaultParam (JString (js ''data.json'')) fb"
      by (auto simp: sanitizeFilename_def Let_def)
    have "\<not> (str_includes (js ''data.json'') (js ''/'') \<or> str_includes (js ''data.json'') (js [CHR 0x5C])
        \<or> str_includes (js ''data.json'') (js ''..''))"
      by (simp add: js_def)
    with bad have "c \<noteq> js ''data.json''" by auto
    then have "fb \<noteq> JString c \<longrightarrow> defaultParam (JString (js ''data.json'')) fb \<noteq> JString c"
      by (simp add: defaultParam_def)
    with fallback show "sanitizeFilename (JString c) fb = defaultParam (JString (js ''data.json'')) fb
            \<and> (fb \<noteq> JString c \<longrightarrow> sanitizeFilename (JString c) fb \<noteq> JString c)"
      by simp
  qed
qed

theorem sanitizeFilename_contract_witness:
  "sanitizeFilename (JString (js '' sales-2024_v1.json '')) JUndefined
     = JString (js ''sales-2024_v1.json'')
   \<and> sanitizeFilename (JString (js ''../etc/passwd'')) (JString (js ''fallback.json''))
     = JString (js ''fallback.json'')
   \<and> sanitizeFilename (JNumber 7) JUndefined = JString (js ''data.json'')"
  using sanitizeFilename_contract [of "JString (js '' sales-2024_v1.json '')" JUndefined "js ''x''"]
    sanitizeFilename_contract [of JNull "JString (js ''fallback.json'')" "js ''../etc/passwd''"]
    sanitizeFilename_contract [of "JNumber 7" JUndefined "js ''x''"]
  by (simp add: spec_acceptable_def defaultParam_def trim_def js_def isWhiteSpace_def inClass_def)

section \<open>The host allow-list\<close>

text \<open>The pieces of \<open>split\<close>, joined by the separator again, are the string; no piece holds a separator.\<close>

lemma split_join: "concat (map (\<lambda>w. sep # w) (split sep s)) = sep # s"
  by (induction s) (auto split: list.splits)

lemma split_no_sep: "w \<in> set (split sep s) \<Longrightarrow> sep \<notin> set w"
  by (induction s arbitrary: w) (auto split: list.splits if_splits)

text \<open>
  C9. With no entry in the allow-list (the variable unset, empty, or holding only commas
  and white space) \<open>isAllowedHost\<close> returns \<^verbatim>\<open>true\<close> for every argument. With entries,
  it returns, for every argument that parses as a URL, whether the URL's hostname is equal
  to one of the trimmed non-empty pieces of the comma-separated list; it returns a
  boolean and does not throw.
\<close>

theorem isAllowedHost_contract:
  "(allowList e = [] \<longrightarrow> isAllowedHost e parse u = Inr True)
   \<and> (allowList e \<noteq> [] \<and> parse u = Some url \<longrightarrow>
        isAllowedHost e parse u =
          Inr (\<exists>entry \<in> set (split 0x2C (orDefault (ALLOWED_FETCH_HOSTS e) [])).
                 trim entry \<noteq> [] \<and> hostname url = trim entry))"
  by (auto simp: isAllowedHost_def allowList_def Let_def)

theorem isAllowedHost_contract_witness:
  "isAllowedHost env0 parse0 (js ''not a url'') = Inr True
   \<and> isAllowedHost (env0\<lparr>ALLOWED_FETCH_HOSTS := Some (js ''data.org, example.com'')\<rparr>) parse0
        (js ''https://example.com/a.json'') = Inr True
   \<and> isAllowedHost (env0\<lparr>ALLOWED_FETCH_HOSTS := Some (js ''data.org, example.com'')\<rparr>) parse0
        (js ''https://sub.example.com/a.json'') = Inr False"
  using isAllowedHost_contract [of env0 parse0 "js ''not a url''" undefined]
    isAllowedHost_contract [of "env0\<lparr>ALLOWED_FETCH_HOSTS := Some (js ''data.org, example.com'')\<rparr>"
       parse0 "js ''https://example.com/a.json''" "\<lparr> protocol = js ''https:'', hostname = js ''example.com'' \<rparr>"]
    isAllowedHost_contract [of "env0\<lparr>ALLOWED_FETCH_HOSTS := Some (js ''data.org, example.com'')\<rparr>"
       parse0 "js ''https://sub.example.com/a.json''" "\<lparr> protocol = js ''https:'', hostname = js ''sub.example.com'' \<rparr>"]
  by (simp add: env0_def parse0_def allowList_def orDefault_def trim_def isWhiteSpace_def js_def)

text \<open>
  Outside the URLs: with entries in the list, an argument that does not parse makes
  \<^verbatim>\<open>new URL(u)\<close> throw. The handler calls \<open>isAllowedHost\<close> only after \<open>isHttpUrl\<close> has
  accepted the string.
\<close>

lemma isAllowedHost_unparseable:
  "isAllowedHost (env0\<lparr>ALLOWED_FETCH_HOSTS := Some (js ''example.com'')\<rparr>) parse0 (js ''not a url'')
     = Inl invalidUrl"
  by (simp add: isAllowedHost_def env0_def parse0_def allowList_def orDefault_def trim_def
      isWhiteSpace_def js_def)

lemma isAllowedHost_after_isHttpUrl:
  "isHttpUrl parse u \<Longrightarrow> \<exists>b. isAllowedHost e parse u = Inr b"
  by (auto simp: isHttpUrl_def isAllowedHost_def Let_def split: option.splits)

section \<open>Serializations\<close>

text \<open>
  C3, as the claim states it, fails twice: \<^verbatim>\<open>trig\<close> has no extension of its own (it
  gets \<^verbatim>\<open>nq\<close>, the extension of \<^verbatim>\<open>nquads\<close>), and the empty serialization is not
  passed to the engine at all.
\<close>

theorem serialization_counterexample:
  "\<not> distinct (map outputExt [js ''turtle'', js ''trig'', js ''jsonld'', js ''nquads''])
   \<and> js ''-s'' \<notin> set (args (mapperSpawn env0 params0))"
  by (simp add: outputExt_def mapperSpawn_def mapperArgs_def env0_def params0_def orDefault_def js_def)

text \<open>
  C3, amended. Each of \<^verbatim>\<open>turtle\<close>, \<^verbatim>\<open>trig\<close>, \<^verbatim>\<open>jsonld\<close>, \<^verbatim>\<open>nquads\<close> has its own
  content type; \<^verbatim>\<open>turtle\<close>, \<^verbatim>\<open>jsonld\<close> and \<^verbatim>\<open>nquads\<close> have the extensions \<^verbatim>\<open>ttl\<close>,
  \<^verbatim>\<open>jsonld\<close> and \<^verbatim>\<open>nq\<close>; every value other than the four folds to
  \<^verbatim>\<open>application/n-quads\<close> and \<^verbatim>\<open>nq\<close>; and the value is passed verbatim after \<^verbatim>\<open>-s\<close>
  exactly when it is not empty.
\<close>

theorem serialization_mapping:
  "distinct (map (\<lambda>s. contentTypeFor (JString s)) [js ''turtle'', js ''trig'', js ''jsonld'', js ''nquads''])
   \<and> contentTypeFor (JString (js ''turtle'')) = js ''text/turtle''
   \<and> contentTypeFor (JString (js ''trig'')) = js ''application/trig''
   \<and> contentTypeFor (JString (js ''jsonld'')) = js ''application/ld+json''
   \<and> contentTypeFor (JString (js ''nquads'')) = js ''application/n-quads''
   \<and> distinct (map outputExt [js ''turtle'', js ''jsonld'', js ''nquads''])
   \<and> outputExt (js ''turtle'') = js ''ttl''
   \<and> outputExt (js ''jsonld'') = js ''jsonld''
   \<and> outputExt (js ''nquads'') = js ''nq''
   \<and> (s \<notin> {js ''turtle'', js ''trig'', js ''jsonld'', js ''nquads''} \<longrightarrow>
         contentTypeFor (JString s) = js ''application/n-quads'' \<and> outputExt s = js ''nq'')
   \<and> map_of (flagPairs (args (mapperSpawn e (p\<lparr>serialization := s\<rparr>)))) (js ''-s'')
       = (if s = [] then None else Some s)"
  by (simp add: contentTypeFor_def outputExt_def mapperSpawn_def mapperArgs_def js_def
      split: option.splits)

theorem serialization_mapping_witness:
  "contentTypeFor (JString (js ''rdfxml'')) = js ''application/n-quads''
   \<and> outputExt (js ''rdfxml'') = js ''nq''
   \<and> map_of (flagPairs (args (mapperSpawn env0 (params0\<lparr>serialization := js ''rdfxml''\<rparr>)))) (js ''-s'')
       = Some (js ''rdfxml'')"
  using serialization_mapping [of "js ''rdfxml''" env0 params0]
  by (simp add: js_def)

section \<open>The engine's diagnostic stream\<close>

text \<open>The handler for a chunk keeps the last 200000 code units of what it had and the chunk.\<close>

lemma onData_sliceLast:
  "stderr (onEvent st (StderrData d)) = sliceLast 200000 (stderr st @ d)"
  by (simp add: Let_def sliceLast_def)

lemma sliceLast_append: "sliceLast n (sliceLast n a @ d) = sliceLast n (a @ d)"
proof (cases "length a \<le> n")
  case True
  then show ?thesis by (simp add: sliceLast_def)
next
  case False
  then have "length a + length d - (length a - n + n) + (length a - n) = length a + length d - n"
    by arith
  then show ?thesis using False by (simp add: sliceLast_def)
qed

lemma stderr_settle [simp]: "stderr (settle p st) = stderr st"
  by (simp add: settle_def)

lemma emitted_append:
  "emitted (evs @ [ev]) = emitted evs @ (case ev of StderrData d \<Rightarrow> d | _ \<Rightarrow> [])"
  by (induction evs rule: emitted.induct) (auto split: child_event.splits)

lemma stderr_runEvents: "stderr (runEvents evs) = sliceLast 200000 (emitted evs)"
proof (induction evs rule: rev_induct)
  case Nil
  then show ?case by (simp add: runEvents_def initialState_def sliceLast_def)
next
  case (snoc ev evs)
  show ?case
  proof (cases ev)
    case (StderrData d)
    have "stderr (runEvents (evs @ [ev])) = sliceLast 200000 (stderr (runEvents evs) @ d)"
      using StderrData by (simp add: runEvents_def onData_sliceLast del: onEvent.simps)
    also have "\<dots> = sliceLast 200000 (emitted evs @ d)"
      by (simp only: snoc.IH sliceLast_append)
    finally show ?thesis using StderrData by (simp add: emitted_append)
  next
    case (ProcError e)
    then show ?thesis using snoc.IH by (simp add: runEvents_def emitted_append)
  next
    case (ProcClose c)
    then show ?thesis using snoc.IH by (simp add: runEvents_def emitted_append)
  qed
qed

text \<open>
  C5. After any sequence of events the retained text is the last 200000 code units of
  all that the child has written to stderr so far, hence never longer than 200000. When
  the \<^verbatim>\<open>close\<close> event then brings an exit code other than 0 and no \<^verbatim>\<open>error\<close> event
  has settled the promise before, the promise is rejected with an error whose message
  holds the exit code and that retained text.
\<close>

theorem stderr_bounded_exit_error:
  "stderr (runEvents evs) = sliceLast 200000 (emitted evs)
   \<and> length (stderr (runEvents evs)) \<le> 200000
   \<and> (settled (runEvents evs) = Pending \<and> code \<noteq> Some 0 \<longrightarrow>
        settled (runEvents (evs @ [ProcClose code])) =
          Rejected (newError (js ''RMLMapper exited with code '' @ codeToString code @ [0xA]
                     @ sliceLast 200000 (emitted evs))))"
proof (intro conjI impI)
  show "stderr (runEvents evs) = sliceLast 200000 (emitted evs)"
    by (rule stderr_runEvents)
  then show "length (stderr (runEvents evs)) \<le> 200000"
    by (simp add: sliceLast_def)
next
  assume h: "settled (runEvents evs) = Pending \<and> code \<noteq> Some 0"
  have "runEvents (evs @ [ProcClose code]) = onEvent (runEvents evs) (ProcClose code)"
    by (simp add: runEvents_def)
  with h show "settled (runEvents (evs @ [ProcClose code])) =
          Rejected (newError (js ''RMLMapper exited with code '' @ codeToString code @ [0xA]
                     @ sliceLast 200000 (emitted evs)))"
    by (simp add: settle_def stderr_runEvents)
qed

theorem stderr_bounded_exit_error_witness:
  "settled (runEvents [StderrData (js ''boom''), ProcClose (Some 1)]) =
     Rejected (newError (js ''RMLMapper exited with code 1'' @ [0xA] @ js ''boom''))
   \<and> length (stderr (runEvents [StderrData (replicate 150000 0x61), StderrData (replicate 150000 0x62)]))
       = 200000"
  using stderr_bounded_exit_error [of "[StderrData (js ''boom'')]" "Some 1"]
    stderr_bounded_exit_error
      [of "[StderrData (replicate 150000 0x61), StderrData (replicate 150000 0x62)]" None]
  by (simp add: runEvents_def initialState_def settle_def sliceLast_def codeToString_def js_def Let_def
      numToString.simps)

section \<open>Evaluating the model\<close>

lemmas model_eval =
  handler_def getProp_def js_def trim_def isWhiteSpace_def orDefault_def
  DEFAULT_SERIALIZATION_const_def resourceUrlOf_def fileNameOf_def isHttpUrl_def
  isAllowedHost_def allowList_def sanitizeFilename_def defaultParam_def inClass_def stringOf_def
  pathJoin_def mkdtemp_def tempChars_def tempAlphabet_def dirname_def below_def
  handlerBaseIri_def outputExt_def catchFinally_def tryBlock_def startState_def
  fetchAll_def issued_def fetchSettles_def timerDelay_def writeFile_def readFile_def rm_def
  convertAndRun_def runAndReturn_def mapperSpawn_def mapperArgs_def runEvents_def
  initialState_def settle_def toTurtle_def finallyBlock_def early_def rejected_def errorBody_def
  errMessage_def newError_def contentTypeFor_def numToString.simps Let_def

lemmas example_eval =
  env0_def parse0_def world0_def req0_def resource_def fs0_def stringify0_def exchange0_def
  convert0_def child0_def

section \<open>Decimal numerals\<close>

text \<open>The decimal string of a number determines the number: a message that holds it carries the number.\<close>

lemma numToString_nonempty: "numToString n \<noteq> []"
  by (subst numToString.simps) simp

lemma digit_inj: "a < 10 \<Longrightarrow> b < 10 \<Longrightarrow> (of_nat (48 + a) :: 16 word) = of_nat (48 + b) \<Longrightarrow> a = b"
proof -
  assume a: "a < 10" and b: "b < 10" and eq: "(of_nat (48 + a) :: 16 word) = of_nat (48 + b)"
  from eq have "take_bit 16 (48 + a) = take_bit 16 (48 + b)"
    by (simp only: word_of_nat_eq_iff len_bit0 len_num1 mult_1_right One_nat_def) simp
  moreover have "take_bit 16 (48 + a) = 48 + a"
    using a by (simp add: take_bit_nat_eq_self)
  moreover have "take_bit 16 (48 + b) = 48 + b"
    using b by (simp add: take_bit_nat_eq_self)
  ultimately show "a = b" by simp
qed

lemma numToString_inj: "numToString a = numToString b \<Longrightarrow> a = b"
proof (induction a arbitrary: b rule: numToString.induct)
  case (1 n)
  show ?case
  proof (cases "n < 10")
    case True
    then have n: "numToString n = [of_nat (48 + n)]" by (subst numToString.simps) simp
    show ?thesis
    proof (cases "b < 10")
      case b: True
      then have "numToString b = [of_nat (48 + b)]" by (subst numToString.simps) simp
      with n "1.prems" have "(of_nat (48 + n) :: 16 word) = of_nat (48 + b)" by simp
      with True b show ?thesis by (rule digit_inj)
    next
      case False
      then have "numToString b = numToString (b div 10) @ [of_nat (48 + b mod 10)]" by (subst numToString.simps) simp
      with n "1.prems" have "numToString (b div 10) = []" by simp
      then show ?thesis using numToString_nonempty by blast
    qed
  next
    case False
    then have n: "numToString n = numToString (n div 10) @ [of_nat (48 + n mod 10)]" by (subst numToString.simps) simp
    show ?thesis
    proof (cases "b < 10")
      case True
      then have "numToString b = [of_nat (48 + b)]" by (subst numToString.simps) simp
      with n "1.prems" have "numToString (n div 10) = []" by simp
      then show ?thesis using numToString_nonempty by blast
    next
      case b: False
      then have "numToString b = numToString (b div 10) @ [of_nat (48 + b mod 10)]" by (subst numToString.simps) simp
      with n "1.prems" have eq: "numToString (n div 10) = numToString (b div 10)"
        and d: "(of_nat (48 + n mod 10) :: 16 word) = of_nat (48 + b mod 10)" by simp_all
      from "1.IH" [OF False eq] have "n div 10 = b div 10" .
      moreover have "n mod 10 = b mod 10"
        using d by (intro digit_inj) simp_all
      ultimately show ?thesis by (metis div_mult_mod_eq)
    qed
  qed
qed

section \<open>One fetch\<close>

text \<open>
  C7. The deadline of a fetch is the delay its timer really has: \<^verbatim>\<open>FETCH_TIMEOUT_MS\<close>
  cut to whole milliseconds when it is a number from 1 to 2147483647, and 1 ms for every
  other value (\<^verbatim>\<open>NaN\<close> and the infinities included), as \<^verbatim>\<open>setTimeout\<close> sets it.
  With \<open>status\<close> the status of a response that arrives before the deadline:
  a status outside 200 to 299 makes the fetch fail with the error
  \<^verbatim>\<open>Fetch failed: HTTP <status>\<close> and nothing is written; on a status from 200 to 299
  whose body is complete before the deadline, a body that \<^verbatim>\<open>resp.json()\<close> rejects fails the
  fetch with that rejection, and a parsed body is written, as the text
  \<^verbatim>\<open>JSON.stringify(json, null, 2)\<close>, to \<open>outPath\<close> (the fetch fails, and nothing is
  written, if the directory of \<open>outPath\<close> is not there, if \<open>outPath\<close> is a directory, or if
  the write fails otherwise); and when the deadline passes before the response, or before
  its body is complete, the fetch fails with the abort error and nothing is written.
\<close>

theorem fetchJsonToFile_contract:
  "(head_at (exchange w n u) < timerDelay (FETCH_TIMEOUT_MS e) \<and> head (exchange w n u) = Inr status
      \<and> \<not> (200 \<le> status \<and> status \<le> 299) \<longrightarrow>
      fetchJsonToFile e w n u outPath fs
        = (Some (newError (js ''Fetch failed: HTTP '' @ numToString status)), fs))
   \<and> (head_at (exchange w n u) + body_after (exchange w n u) < timerDelay (FETCH_TIMEOUT_MS e)
      \<and> head (exchange w n u) = Inr status \<and> 200 \<le> status \<and> status \<le> 299 \<longrightarrow>
      fetchJsonToFile e w n u outPath fs
        = (case body_json (exchange w n u) of
             Inl err \<Rightarrow> (Some err, fs)
           | Inr json \<Rightarrow>
               if fs (dirname outPath) \<noteq> Some Dir then (Some (enoent w outPath), fs)
               else if fs outPath = Some Dir then (Some (eisdir w outPath), fs)
               else (case write_error w fs outPath (JSON_stringify w json) of
                       Some err \<Rightarrow> (Some err, fs)
                     | None \<Rightarrow> (None, fs(outPath \<mapsto> File (JSON_stringify w json))))))
   \<and> (timerDelay (FETCH_TIMEOUT_MS e) \<le> head_at (exchange w n u)
      \<or> (head (exchange w n u) = Inr status \<and> 200 \<le> status \<and> status \<le> 299
          \<and> timerDelay (FETCH_TIMEOUT_MS e) \<le> head_at (exchange w n u) + body_after (exchange w n u)) \<longrightarrow>
      fetchJsonToFile e w n u outPath fs = (Some abortError, fs))
   \<and> (FETCH_TIMEOUT_MS e = Finite q \<and> 1 \<le> q \<and> q \<le> 2147483647 \<longrightarrow>
        timerDelay (FETCH_TIMEOUT_MS e) = nat \<lfloor>q\<rfloor>)
   \<and> ((\<forall>q. FETCH_TIMEOUT_MS e = Finite q \<longrightarrow> q < 1 \<or> 2147483647 < q) \<longrightarrow>
        timerDelay (FETCH_TIMEOUT_MS e) = 1)"
proof (intro conjI impI)
  assume "head_at (exchange w n u) < timerDelay (FETCH_TIMEOUT_MS e) \<and> head (exchange w n u) = Inr status
      \<and> \<not> (200 \<le> status \<and> status \<le> 299)"
  then show "fetchJsonToFile e w n u outPath fs
        = (Some (newError (js ''Fetch failed: HTTP '' @ numToString status)), fs)"
    by (auto simp: fetchJsonToFile_def fetchSettles_def Let_def)
next
  assume "head_at (exchange w n u) + body_after (exchange w n u) < timerDelay (FETCH_TIMEOUT_MS e)
      \<and> head (exchange w n u) = Inr status \<and> 200 \<le> status \<and> status \<le> 299"
  then show "fetchJsonToFile e w n u outPath fs
        = (case body_json (exchange w n u) of
             Inl err \<Rightarrow> (Some err, fs)
           | Inr json \<Rightarrow>
               if fs (dirname outPath) \<noteq> Some Dir then (Some (enoent w outPath), fs)
               else if fs outPath = Some Dir then (Some (eisdir w outPath), fs)
               else (case write_error w fs outPath (JSON_stringify w json) of
                       Some err \<Rightarrow> (Some err, fs)
                     | None \<Rightarrow> (None, fs(outPath \<mapsto> File (JSON_stringify w json)))))"
    by (auto simp: fetchJsonToFile_def fetchSettles_def writeFile_def Let_def
        split: sum.splits option.splits)
next
  assume "timerDelay (FETCH_TIMEOUT_MS e) \<le> head_at (exchange w n u)
      \<or> (head (exchange w n u) = Inr status \<and> 200 \<le> status \<and> status \<le> 299
          \<and> timerDelay (FETCH_TIMEOUT_MS e) \<le> head_at (exchange w n u) + body_after (exchange w n u))"
  then show "fetchJsonToFile e w n u outPath fs = (Some abortError, fs)"
    by (auto simp: fetchJsonToFile_def fetchSettles_def Let_def)
next
  assume "FETCH_TIMEOUT_MS e = Finite q \<and> 1 \<le> q \<and> q \<le> 2147483647"
  then show "timerDelay (FETCH_TIMEOUT_MS e) = nat \<lfloor>q\<rfloor>"
    by (simp add: timerDelay_def)
next
  assume "\<forall>q. FETCH_TIMEOUT_MS e = Finite q \<longrightarrow> q < 1 \<or> 2147483647 < q"
  then show "timerDelay (FETCH_TIMEOUT_MS e) = 1"
    by (cases "FETCH_TIMEOUT_MS e") (auto simp: timerDelay_def)
qed

theorem fetchJsonToFile_contract_witness:
  "fetchJsonToFile env0 world0 0 (js ''https://sub.example.com/a.json'') (js ''/tmp/data.json'') fs0
     = (Some (newError (js ''Fetch failed: HTTP 500'')), fs0)
   \<and> fetchJsonToFile env0 world0 0 (js ''https://example.com/a.json'') (js ''/tmp/data.json'') fs0
     = (None, fs0(js ''/tmp/data.json'' \<mapsto> File ([0x22] @ js ''hello'' @ [0x22])))
   \<and> fetchJsonToFile env0 world0 0 (js ''https://slow.example.com/a.json'') (js ''/tmp/data.json'') fs0
     = (Some abortError, fs0)
   \<and> fetchJsonToFile (env0\<lparr>FETCH_TIMEOUT_MS := Finite 2147483648\<rparr>) world0 0
        (js ''https://sub.example.com/a.json'') (js ''/tmp/data.json'') fs0
     = (Some abortError, fs0)
   \<and> timerDelay (Finite (3001 / 2)) = 1500
   \<and> timerDelay NaN = 1"
proof -
  have half: "\<lfloor>3001 / 2 :: rat\<rfloor> = 1500"
    by (rule floor_unique) simp_all
  show ?thesis
    using fetchJsonToFile_contract
        [of world0 0 "js ''https://sub.example.com/a.json''" env0 500 "js ''/tmp/data.json''" fs0 30000]
      fetchJsonToFile_contract
        [of world0 0 "js ''https://example.com/a.json''" env0 200 "js ''/tmp/data.json''" fs0 30000]
      fetchJsonToFile_contract
        [of world0 0 "js ''https://slow.example.com/a.json''" env0 200 "js ''/tmp/data.json''" fs0 30000]
      fetchJsonToFile_contract
        [of world0 0 "js ''https://sub.example.com/a.json''"
            "env0\<lparr>FETCH_TIMEOUT_MS := Finite 2147483648\<rparr>" 500 "js ''/tmp/data.json''" fs0 2147483648]
      half
    by (simp add: env0_def world0_def exchange0_def stringify0_def fs0_def js_def numToString.simps
        timerDelay_def dirname_def)
qed

section \<open>Validation before any work\<close>

lemma refusedEntry_iff:
  "refusedEntry e parse r \<longleftrightarrow>
     resourceUrlOf r = [] \<or> \<not> isHttpUrl parse (resourceUrlOf r)
     \<or> isAllowedHost e parse (resourceUrlOf r) = Inr False"
  by (auto simp: refusedEntry_def resourceUrlOf_def isHttpUrl_def isAllowedHost_def Let_def
      split: jsvalue.splits option.splits)
lemma validate_refuses:
  "\<exists>r \<in> set rs. refusedEntry e parse r \<Longrightarrow>
     \<exists>res. validate e parse rs acc = Refused res \<and> validationFailure res"
proof (induction rs arbitrary: acc)
  case Nil
  then show ?case by simp
next
  case (Cons r rs)
  show ?case
  proof (cases "refusedEntry e parse r")
    case True
    then show ?thesis
      by (auto simp: refusedEntry_iff validationFailure_def Let_def)
  next
    case False
    with Cons.prems have rest: "\<exists>r \<in> set rs. refusedEntry e parse r" by simp
    from False have ok: "resourceUrlOf r \<noteq> []" "isHttpUrl parse (resourceUrlOf r)"
      "isAllowedHost e parse (resourceUrlOf r) \<noteq> Inr False"
      by (simp_all add: refusedEntry_iff)
    from ok(2) obtain b where b: "isAllowedHost e parse (resourceUrlOf r) = Inr b"
      using isAllowedHost_after_isHttpUrl by blast
    with ok(3) have "b" by simp
    with ok b have "validate e parse (r # rs) acc
        = validate e parse rs (acc @ [(resourceUrlOf r, stringOf (fileNameOf r))])"
      by (simp add: Let_def)
    with Cons.IH [OF rest] show ?thesis by simp
  qed
qed

text \<open>
  C2. When the resource list of a request holds an entry the specification refuses, the
  handler answers with a validation failure and returns having made no call at all: no
  fetch, no working directory, the file system as it was.
\<close>

theorem invalid_resource_rejected:
  "getProp (req_body req) (js ''resources'') = JArray rs
   \<and> (\<exists>r \<in> set rs. refusedEntry e (parseURL w) r) \<longrightarrow>
     (\<exists>res. response (handler e w req fs) = Some res \<and> validationFailure res)
     \<and> effects (handler e w req fs) = []
     \<and> files (handler e w req fs) = fs
     \<and> completion (handler e w req fs) = Returned"
proof
  assume h: "getProp (req_body req) (js ''resources'') = JArray rs
   \<and> (\<exists>r \<in> set rs. refusedEntry e (parseURL w) r)"
  then obtain r rs' where rs: "rs = r # rs'" by (cases rs) auto
  from h obtain res where res: "validate e (parseURL w) rs [] = Refused res" "validationFailure res"
    using validate_refuses by blast
  show "(\<exists>res. response (handler e w req fs) = Some res \<and> validationFailure res)
     \<and> effects (handler e w req fs) = []
     \<and> files (handler e w req fs) = fs
     \<and> completion (handler e w req fs) = Returned"
  proof (cases "case getProp (req_body req) (js ''yarrml'') of JString y \<Rightarrow> trim y = [] | _ \<Rightarrow> True")
    case True
    then show ?thesis
      by (simp add: handler_def Let_def early_def validationFailure_def)
  next
    case False
    with h rs res show ?thesis
      by (simp add: handler_def Let_def early_def)
  qed
qed

theorem invalid_resource_rejected_witness:
  "response (handler env0 world0
      (req0 ''ok'' [resource ''https://example.com/a.json'' ''a.json'',
                    resource ''ftp://example.com/a.json'' ''b.json'']) fs0)
     = Some (Json 400 (errorBody (js ''resourceUrl must be http(s): ftp://example.com/a.json'')))
   \<and> effects (handler env0 world0
      (req0 ''ok'' [resource ''https://example.com/a.json'' ''a.json'',
                    resource ''ftp://example.com/a.json'' ''b.json'']) fs0) = []"
  using invalid_resource_rejected
    [of "req0 ''ok'' [resource ''https://example.com/a.json'' ''a.json'',
                      resource ''ftp://example.com/a.json'' ''b.json'']"
        "[resource ''https://example.com/a.json'' ''a.json'',
          resource ''ftp://example.com/a.json'' ''b.json'']" env0 world0 fs0]
  by (simp add: model_eval example_eval refusedEntry_def validationFailure_def)

section \<open>The calls of a run\<close>

lemma ofKind_append [simp]: "ofKind K (xs @ ys) = ofKind K xs @ ofKind K ys"
  by (simp add: ofKind_def)

lemma ofKind_Nil [simp]: "ofKind K [] = []"
  by (simp add: ofKind_def)

lemma ofKind_Cons: "ofKind K (x # xs) = (if kindOf x \<in> K then x # ofKind K xs else ofKind K xs)"
  by (simp add: ofKind_def)

lemma settleAll_kinds:
  "KWrite \<notin> K \<Longrightarrow> ofKind K (calls (snd (settleAll w st cs))) = ofKind K (calls st)"
proof (induction w st cs rule: settleAll.induct)
  case (1 w st)
  then show ?case by simp
next
  case (2 w st t err outPath rest)
  then show ?case by simp
next
  case (3 w st t json outPath rest)
  then show ?case
    by (auto simp: Let_def ofKind_Cons split: sum.splits)
qed

lemma fetchAll_kinds:
  assumes "KWrite \<notin> K" and "KFetch \<notin> K"
  shows "ofKind K (calls (snd (fetchAll e w dir normalized st))) = ofKind K (calls st)"
proof -
  have "ofKind K (map (\<lambda>(resourceUrl, fileName). Fetch resourceUrl) normalized) = []"
    using assms(2) by (induction normalized) (auto simp: ofKind_Cons)
  then show ?thesis
    using assms(1) by (simp add: fetchAll_def settleAll_kinds)
qed

lemma runAndReturn_kinds:
  assumes "KSpawn \<notin> K" and "KRead \<notin> K"
  shows "ofKind K (calls (snd (runAndReturn e w p st))) = ofKind K (calls st)"
  using assms
  by (auto simp: runAndReturn_def Let_def ofKind_Cons split: prod.splits promise.splits sum.splits)

lemma convertAndRun_kinds:
  assumes "KSpawn \<notin> K" and "KRead \<notin> K" and "KWrite \<notin> K" and "KConvert \<notin> K"
  shows "ofKind K (calls (snd (convertAndRun e w y p st))) = ofKind K (calls st)"
  using assms
  by (auto simp: convertAndRun_def Let_def ofKind_Cons runAndReturn_kinds split: sum.splits)

lemma tryBlock_kinds:
  assumes "KSpawn \<notin> K" and "KRead \<notin> K" and "KWrite \<notin> K" and "KConvert \<notin> K" and "KFetch \<notin> K"
  shows "ofKind K (calls (snd (tryBlock e w y normalized p st))) = ofKind K (calls st)"
proof (cases "fetchAll e w (workdir p) normalized st")
  case (Pair r st1)
  have st1: "ofKind K (calls st1) = ofKind K (calls st)"
    using fetchAll_kinds [OF assms(3) assms(5), of e w "workdir p" normalized st] Pair by simp
  show ?thesis
  proof (cases r)
    case None
    with Pair st1 show ?thesis
      by (simp add: tryBlock_def convertAndRun_kinds [OF assms(1-4)])
  next
    case (Some err)
    with Pair st1 show ?thesis
      by (simp add: tryBlock_def)
  qed
qed


lemma writesOf_append: "writesOf w (xs @ ys) = writesOf w xs @ writesOf w ys"
  by (induction w xs rule: writesOf.induct) auto

lemma writesOf_kinds: "KWrite \<notin> K \<Longrightarrow> ofKind K (writesOf w cs) = []"
  by (induction w cs rule: writesOf.induct) (auto simp: ofKind_Cons)

lemma writesOf_writes: "ofKind {KWrite} (writesOf w cs) = writesOf w cs"
  by (induction w cs rule: writesOf.induct) (auto simp: ofKind_Cons)

lemma lateWrites_calls: "calls (lateWrites w st cs) = calls st @ writesOf w cs"
  by (induction w st cs rule: lateWrites.induct) (auto simp: Let_def split: sum.splits)

lemma handler_cases:
  obtains
    (untouched) "effects (handler e w req fs) = []" "files (handler e w req fs) = fs"
      "completion (handler e w req fs) \<noteq> Hung" "at_spawn (handler e w req fs) = None"
      "at_fetched (handler e w req fs) = None"
  | (job) y r rs normalized n p where
      "getProp (req_body req) (js ''yarrml'') = JString y"
      "getProp (req_body req) (js ''resources'') = JArray (r # rs)"
      "validate e (parseURL w) (r # rs) [] = Accepted normalized"
      "mkdtemp_result w fs (pathJoin (tmpdir w) (js ''mapjob-'' @ randomUUID w @ js ''-'')) = Inr n"
      "workdir p = pathJoin (tmpdir w) (js ''mapjob-'' @ randomUUID w @ js ''-'') @ tempChars n"
      "mappingPath p = pathJoin (workdir p) (js ''mapping.ttl'')"
      "handler e w req fs =
         catchFinally w (workdir p)
           (tryBlock e w y normalized p (startState (workdir p) (fs(workdir p \<mapsto> Dir))))"
      "p = \<lparr> workdir = workdir p,
             mappingPath = pathJoin (workdir p) (js ''mapping.ttl''),
             outputPath = pathJoin (workdir p)
               (js ''output.'' @ outputExt
                  (trim (orDefault (query_serialization req) (DEFAULT_SERIALIZATION_const e)))),
             serialization = trim (orDefault (query_serialization req) (DEFAULT_SERIALIZATION_const e)),
             baseIri = handlerBaseIri e \<rparr>"
proof (cases "case getProp (req_body req) (js ''yarrml'') of JString y \<Rightarrow> trim y = [] | _ \<Rightarrow> True")
  case True
  then have "effects (handler e w req fs) = []" "files (handler e w req fs) = fs"
    "completion (handler e w req fs) \<noteq> Hung" "at_spawn (handler e w req fs) = None"
    "at_fetched (handler e w req fs) = None"
    by (simp_all add: handler_def Let_def early_def)
  then show ?thesis using untouched by blast
next
  case False
  then obtain y where y: "getProp (req_body req) (js ''yarrml'') = JString y"
    by (cases "getProp (req_body req) (js ''yarrml'')") auto
  show ?thesis
  proof (cases "\<exists>r rs. getProp (req_body req) (js ''resources'') = JArray (r # rs)")
    case no: False
    with False have "effects (handler e w req fs) = []" "files (handler e w req fs) = fs"
      "completion (handler e w req fs) \<noteq> Hung" "at_spawn (handler e w req fs) = None"
      "at_fetched (handler e w req fs) = None"
      by (auto simp: handler_def Let_def early_def split: jsvalue.splits list.splits)
    then show ?thesis using untouched by blast
  next
    case True
    then obtain r rs where rs: "getProp (req_body req) (js ''resources'') = JArray (r # rs)"
      by blast
    show ?thesis
    proof (cases "validate e (parseURL w) (r # rs) []")
      case (Refused res)
      with False rs have "effects (handler e w req fs) = []" "files (handler e w req fs) = fs"
        "completion (handler e w req fs) \<noteq> Hung" "at_spawn (handler e w req fs) = None"
        "at_fetched (handler e w req fs) = None"
        by (simp_all add: handler_def Let_def early_def)
      then show ?thesis using untouched by blast
    next
      case (Raised err)
      with False rs have "effects (handler e w req fs) = []" "files (handler e w req fs) = fs"
        "completion (handler e w req fs) \<noteq> Hung" "at_spawn (handler e w req fs) = None"
        "at_fetched (handler e w req fs) = None"
        by (simp_all add: handler_def Let_def rejected_def)
      then show ?thesis using untouched by blast
    next
      case (Accepted normalized)
      let ?prefix = "pathJoin (tmpdir w) (js ''mapjob-'' @ randomUUID w @ js ''-'')"
      show ?thesis
      proof (cases "mkdtemp_result w fs ?prefix")
        case (Inl err)
        with False rs Accepted have "effects (handler e w req fs) = []"
          "files (handler e w req fs) = fs" "completion (handler e w req fs) \<noteq> Hung"
          "at_spawn (handler e w req fs) = None" "at_fetched (handler e w req fs) = None"
          by (simp_all add: handler_def Let_def mkdtemp_def rejected_def)
        then show ?thesis using untouched by blast
      next
        case (Inr n)
        let ?ser = "trim (orDefault (query_serialization req) (DEFAULT_SERIALIZATION_const e))"
        let ?p = "\<lparr> workdir = ?prefix @ tempChars n,
                     mappingPath = pathJoin (?prefix @ tempChars n) (js ''mapping.ttl''),
                     outputPath = pathJoin (?prefix @ tempChars n) (js ''output.'' @ outputExt ?ser),
                     serialization = ?ser,
                     baseIri = handlerBaseIri e \<rparr>"
        have "handler e w req fs =
           catchFinally w (workdir ?p)
             (tryBlock e w y normalized ?p (startState (workdir ?p) (fs(workdir ?p \<mapsto> Dir))))"
          using False rs Accepted Inr y
          by (simp add: handler_def Let_def mkdtemp_def stringOf_def)
        with y rs Accepted Inr show ?thesis
          by (intro job [of y r rs normalized n ?p]) simp_all
      qed
    qed
  qed
qed

section \<open>Cleanup\<close>

text \<open>Nothing but the removal itself asks whether the removal fails.\<close>

lemma writeFile_rm_error [simp]:
  "writeFile (w\<lparr>rm_error := f\<rparr>) fs path content = writeFile w fs path content"
  by (simp add: writeFile_def)

lemma settleAll_rm_error [simp]:
  "settleAll (w\<lparr>rm_error := f\<rparr>) st cs = settleAll w st cs"
proof (induction cs arbitrary: st)
  case Nil
  then show ?case by simp
next
  case (Cons c cs)
  obtain t r outPath where c: "c = (t, r, outPath)" by (cases c)
  show ?case
  proof (cases r)
    case (Inl err)
    with c show ?thesis by simp
  next
    case (Inr json)
    with c Cons.IH show ?thesis by (simp add: Let_def split: sum.splits)
  qed
qed

lemma writesOf_stringify:
  "JSON_stringify w' = JSON_stringify w \<Longrightarrow> writesOf w' cs = writesOf w cs"
  by (induction w cs rule: writesOf.induct) auto

lemma writesOf_rm_error [simp]: "writesOf (w\<lparr>rm_error := f\<rparr>) cs = writesOf w cs"
  by (rule writesOf_stringify) simp

lemma fetchAll_rm_error [simp]:
  "fetchAll e (w\<lparr>rm_error := f\<rparr>) dir normalized st = fetchAll e w dir normalized st"
  by (simp add: fetchAll_def issued_def)

lemma readFile_rm_error [simp]: "readFile (w\<lparr>rm_error := f\<rparr>) fs path = readFile w fs path"
  by (simp add: readFile_def split: option.splits node.splits)

lemma toTurtle_rm_error [simp]: "toTurtle (w\<lparr>rm_error := f\<rparr>) conv = toTurtle w conv"
  by (simp add: toTurtle_def split: jsvalue.splits)

lemma runAndReturn_rm_error [simp]:
  "runAndReturn e (w\<lparr>rm_error := f\<rparr>) p st = runAndReturn e w p st"
  by (simp add: runAndReturn_def Let_def split: prod.splits promise.splits sum.splits)

lemma convertAndRun_rm_error [simp]:
  "convertAndRun e (w\<lparr>rm_error := f\<rparr>) y p st = convertAndRun e w y p st"
  by (simp add: convertAndRun_def Let_def split: sum.splits)

lemma tryBlock_rm_error [simp]:
  "tryBlock e (w\<lparr>rm_error := f\<rparr>) y normalized p st = tryBlock e w y normalized p st"
  by (simp add: tryBlock_def split: prod.splits option.splits)

text \<open>
  The calls of a run that leaves the \<^verbatim>\<open>try\<close> block: those made up to there, the removal,
  and then the writes of the fetches that were still in flight.
\<close>

lemma finallyBlock_effects:
  "effects (finallyBlock w dir res st) = calls st @ Rm dir # writesOf w (in_flight st)"
proof -
  have "writesOf w (take (rm_overtaken w) (in_flight st)) @ writesOf w (drop (rm_overtaken w) (in_flight st))
      = writesOf w (in_flight st)"
    by (simp flip: writesOf_append)
  then show ?thesis
    by (simp add: finallyBlock_def Let_def lateWrites_calls)
qed

lemma catchFinally_effects:
  "fst r \<noteq> Never \<Longrightarrow>
     effects (catchFinally w dir r) = calls (snd r) @ Rm dir # writesOf w (in_flight (snd r))"
  by (cases r; cases "fst r") (auto simp: catchFinally_def finallyBlock_effects)

lemma catchFinally_Never:
  "fst r = Never \<Longrightarrow> completion (catchFinally w dir r) = Hung"
  by (cases r) (auto simp: catchFinally_def)

lemma catchFinally_completion:
  "fst r \<noteq> Never \<Longrightarrow>
     completion (catchFinally w dir r) = Returned \<and> response (catchFinally w dir r) \<noteq> None"
  by (cases r; cases "fst r") (auto simp: catchFinally_def finallyBlock_def Let_def)

lemma catchFinally_observed:
  "at_spawn (catchFinally w dir r) = spawned (snd r) \<and> at_fetched (catchFinally w dir r) = fetched (snd r)"
  by (cases r; cases "fst r") (auto simp: catchFinally_def finallyBlock_def Let_def)

lemma catchFinally_rm_error:
  "response (catchFinally (w\<lparr>rm_error := f\<rparr>) dir r) = response (catchFinally w dir r)
   \<and> effects (catchFinally (w\<lparr>rm_error := f\<rparr>) dir r) = effects (catchFinally w dir r)
   \<and> completion (catchFinally (w\<lparr>rm_error := f\<rparr>) dir r) = completion (catchFinally w dir r)"
proof (cases "fst r = Never")
  case True
  then show ?thesis by (cases r) (auto simp: catchFinally_def)
next
  case False
  then have "effects (catchFinally (w\<lparr>rm_error := f\<rparr>) dir r) = effects (catchFinally w dir r)"
    by (simp add: catchFinally_effects)
  moreover have "response (catchFinally (w\<lparr>rm_error := f\<rparr>) dir r) = response (catchFinally w dir r)"
    "completion (catchFinally (w\<lparr>rm_error := f\<rparr>) dir r) = completion (catchFinally w dir r)"
    by (cases r; cases "fst r"; simp add: catchFinally_def finallyBlock_def Let_def)+
  ultimately show ?thesis by simp
qed

lemma handler_rm_error:
  "response (handler e (w\<lparr>rm_error := f\<rparr>) req fs) = response (handler e w req fs)
   \<and> effects (handler e (w\<lparr>rm_error := f\<rparr>) req fs) = effects (handler e w req fs)
   \<and> completion (handler e (w\<lparr>rm_error := f\<rparr>) req fs) = completion (handler e w req fs)"
  by (auto simp: handler_def Let_def mkdtemp_def catchFinally_rm_error
      split: jsvalue.splits list.splits validation.splits sum.splits)

text \<open>The name of the working directory ends in a letter or a digit.\<close>

lemma tempChars_last: "tempChars n \<noteq> [] \<and> last (tempChars n) \<noteq> 0x2F"
proof -
  have "(n div 62 ^ 5) mod 62 < length tempAlphabet"
    by (simp add: tempAlphabet_def js_def)
  then have "tempAlphabet ! ((n div 62 ^ 5) mod 62) \<in> set tempAlphabet"
    by (rule nth_mem)
  moreover have "0x2F \<notin> set tempAlphabet"
    by (simp add: tempAlphabet_def js_def)
  ultimately show ?thesis
    by (auto simp: tempChars_def)
qed

lemma workdir_end: "prefix @ tempChars n \<noteq> [] \<and> last (prefix @ tempChars n) \<noteq> 0x2F"
  using tempChars_last [of n] by simp

text \<open>A file directly in a directory has that directory as the directory of its path.\<close>

lemma dirname_child:
  assumes "dir \<noteq> []" and "last dir \<noteq> 0x2F" and "name \<noteq> []" and "0x2F \<notin> set name"
  shows "dirname (dir @ js ''/'' @ name) = dir"
proof -
  let ?p = "dir @ js ''/'' @ name"
  have rev: "rev ?p = rev name @ 0x2F # rev dir"
    by (simp add: js_def)
  have hd_name: "hd (rev name) \<noteq> 0x2F"
    using assms(3,4) by (metis hd_rev last_in_set)
  have r: "dropWhile (\<lambda>c. c = 0x2F) (rev ?p) = rev name @ 0x2F # rev dir"
    using assms(3) hd_name unfolding rev by (cases "rev name") auto
  have "\<forall>x \<in> set (rev name). x \<noteq> 0x2F"
    using assms(4) by auto
  then have r': "dropWhile (\<lambda>c. c \<noteq> 0x2F) (rev name @ 0x2F # rev dir) = 0x2F # rev dir"
    by (simp add: dropWhile_append3)
  have hd_dir: "hd (rev dir) \<noteq> 0x2F"
    using assms(1,2) by (simp add: hd_rev)
  have r'': "dropWhile (\<lambda>c. c = 0x2F) (0x2F # rev dir) = rev dir"
    using assms(1) hd_dir by (cases "rev dir") auto
  show ?thesis
    unfolding dirname_def Let_def r r' r'' using assms(1) by simp
qed


lemma fileName_safe: "stringOf (fileNameOf r) \<noteq> [] \<and> 0x2F \<notin> set (stringOf (fileNameOf r))"
proof -
  have data: "js ''data.json'' \<noteq> [] \<and> 0x2F \<notin> set (js ''data.json'')"
    by (simp add: js_def)
  have "\<And>s. safeNameTest s \<Longrightarrow> s \<noteq> [] \<and> 0x2F \<notin> set s"
    by (auto simp: safeNameTest_iff inClass_def)
  with data show ?thesis
    by (auto simp: fileNameOf_def sanitizeFilename_def defaultParam_def stringOf_def Let_def
        split: jsvalue.splits)
qed

lemma pathJoin_inDir:
  assumes "dir \<noteq> []" and "last dir \<noteq> 0x2F" and "name \<noteq> []" and "0x2F \<notin> set name"
  shows "inDir dir (pathJoin dir name)"
  using assms by (auto simp: inDir_def pathJoin_def)

lemma issued_inDir:
  assumes "dir \<noteq> []" and "last dir \<noteq> 0x2F"
    and "\<forall>(u, name) \<in> set normalized. name \<noteq> [] \<and> 0x2F \<notin> set name"
    and "c \<in> set (issued e w dir normalized)"
  shows "inDir dir (snd (snd c))"
proof -
  from assms(4) obtain n u name where "(n, (u, name)) \<in> set (enumerate 0 normalized)"
    "snd (snd c) = pathJoin dir name"
    by (auto simp: issued_def)
  moreover from this(1) have "n < length normalized" "normalized ! n = (u, name)"
    by (auto simp: in_set_enumerate_eq)
  then have "(u, name) \<in> set normalized"
    by (metis nth_mem)
  ultimately show ?thesis
    using assms(1-3) pathJoin_inDir by fastforce
qed

text \<open>
  Once the working directory is gone, it stays gone: a fetch still in flight cannot write
  into a directory that is not there, and \<^verbatim>\<open>fs.writeFile\<close> makes no directory.
\<close>


lemma startsWith_longer: "startsWith q (dir @ js ''/'') \<Longrightarrow> q \<noteq> dir"
  by (auto simp: startsWith_iff js_def)

lemma writeFile_gone:
  assumes "dir \<noteq> []" and "last dir \<noteq> 0x2F" and "inDir dir path" and "gone dir fs"
    and "writeFile w fs path content = Inr fs'"
  shows "gone dir fs'"
proof (cases "path = dir")
  case True
  from assms(5) have "fs' = fs(path \<mapsto> File content)"
    by (auto simp: writeFile_def split: if_splits option.splits)
  with True assms(4) show ?thesis
    by (auto simp: gone_def dest: startsWith_longer)
next
  case False
  with assms(3) obtain name where "name \<noteq> []" "0x2F \<notin> set name" "path = dir @ js ''/'' @ name"
    by (auto simp: inDir_def)
  with assms(1,2) have "dirname path = dir" by (simp add: dirname_child)
  with assms(4) have "writeFile w fs path content = Inl (enoent w path)"
    by (simp add: writeFile_def gone_def)
  with assms(5) show ?thesis by simp
qed

lemma lateWrites_gone:
  assumes "dir \<noteq> []" and "last dir \<noteq> 0x2F"
  shows "\<forall>c \<in> set cs. inDir dir (snd (snd c)) \<Longrightarrow> gone dir (fs_now st) \<Longrightarrow>
           gone dir (fs_now (lateWrites w st cs))"
proof (induction cs arbitrary: st)
  case Nil
  then show ?case by simp
next
  case (Cons c cs)
  obtain t r outPath where c: "c = (t, r, outPath)" by (cases c)
  from Cons.prems(1) c have path: "inDir dir outPath" and rest: "\<forall>c \<in> set cs. inDir dir (snd (snd c))"
    by auto
  show ?case
  proof (cases r)
    case (Inl err)
    with c Cons.IH [OF rest Cons.prems(2)] show ?thesis by simp
  next
    case (Inr json)
    let ?content = "JSON_stringify w json"
    let ?st1 = "st\<lparr>calls := calls st @ [WriteFile outPath ?content]\<rparr>"
    show ?thesis
    proof (cases "writeFile w (fs_now st) outPath ?content")
      case failed: (Inl err)
      have "gone dir (fs_now ?st1)" using Cons.prems(2) by simp
      from Cons.IH [OF rest this] c Inr failed show ?thesis by (simp add: Let_def)
    next
      case written: (Inr fs')
      have "gone dir fs'"
        using writeFile_gone [OF assms path Cons.prems(2) written] .
      then have "gone dir (fs_now (?st1\<lparr>fs_now := fs'\<rparr>))" by simp
      from Cons.IH [OF rest this] c Inr written show ?thesis by (simp add: Let_def)
    qed
  qed
qed

lemma rm_gone:
  assumes "last dir \<noteq> 0x2F" and "rm w fs dir = Inr fs'"
  shows "gone dir fs'"
  using assms by (auto simp: rm_def gone_def below_def split: option.splits)

lemma finallyBlock_gone:
  assumes "dir \<noteq> []" and "last dir \<noteq> 0x2F"
    and "\<forall>c \<in> set (in_flight st). inDir dir (snd (snd c))"
    and "\<forall>fs' p. rm_error w fs' p = None"
  shows "gone dir (files (finallyBlock w dir res st))"
proof -
  let ?st1 = "lateWrites w (st\<lparr>calls := calls st @ [Rm dir]\<rparr>) (take (rm_overtaken w) (in_flight st))"
  obtain fs2 where fs2: "rm w (fs_now ?st1) dir = Inr fs2"
    using assms(4) by (simp add: rm_def)
  then have g: "gone dir fs2" using assms(2) by (rule rm_gone [rotated])
  have later: "\<forall>c \<in> set (drop (rm_overtaken w) (in_flight st)). inDir dir (snd (snd c))"
    using assms(3) by (auto dest: in_set_dropD)
  have "gone dir (fs_now (lateWrites w (?st1\<lparr>fs_now := fs2\<rparr>) (drop (rm_overtaken w) (in_flight st))))"
    using lateWrites_gone [OF assms(1,2) later] g by simp
  then show ?thesis
    using fs2 by (simp add: finallyBlock_def Let_def)
qed

lemma validate_Accepted:
  "validate e parse rs acc = Accepted normalized \<Longrightarrow>
     normalized = acc @ map (\<lambda>r. (resourceUrlOf r, stringOf (fileNameOf r))) rs"
proof (induction rs arbitrary: acc)
  case Nil
  then show ?case by simp
next
  case (Cons r rs)
  from Cons.prems have "validate e parse rs (acc @ [(resourceUrlOf r, stringOf (fileNameOf r))])
      = Accepted normalized"
    by (auto simp: Let_def split: if_splits sum.splits)
  from Cons.IH [OF this] show ?case by simp
qed

text \<open>The fetches in flight are fetches the job has issued; only a failed \<^verbatim>\<open>Promise.all\<close> leaves any.\<close>

lemma settleAll_in_flight:
  "set (in_flight (snd (settleAll w st cs))) \<subseteq> set (in_flight st) \<union> set cs"
proof (induction cs arbitrary: st)
  case Nil
  then show ?case by simp
next
  case (Cons c cs)
  obtain t r outPath where c: "c = (t, r, outPath)" by (cases c)
  show ?case
  proof (cases r)
    case (Inl err)
    with c show ?thesis by auto
  next
    case (Inr json)
    show ?thesis
    proof (cases "writeFile w (fs_now st) outPath (JSON_stringify w json)")
      case (Inl err)
      with c Inr show ?thesis by (auto simp: Let_def)
    next
      case written: (Inr fs')
      let ?st = "st\<lparr>calls := calls st @ [WriteFile outPath (JSON_stringify w json)], fs_now := fs'\<rparr>"
      have "set (in_flight (snd (settleAll w ?st cs))) \<subseteq> set (in_flight ?st) \<union> set cs"
        by (rule Cons.IH)
      with c Inr written show ?thesis by (auto simp: Let_def)
    qed
  qed
qed

lemma tryBlock_in_flight:
  assumes "in_flight st = []"
  shows "set (in_flight (snd (tryBlock e w y normalized p st)))
           \<subseteq> set (issued e w (workdir p) normalized)"
proof -
  let ?st = "st\<lparr>calls := calls st @ map (\<lambda>(resourceUrl, fileName). Fetch resourceUrl) normalized\<rparr>"
  let ?cs = "sort_key fst (issued e w (workdir p) normalized)"
  have fa: "fetchAll e w (workdir p) normalized st = settleAll w ?st ?cs"
    by (simp add: fetchAll_def)
  have sub: "set (in_flight (snd (settleAll w ?st ?cs))) \<subseteq> set (issued e w (workdir p) normalized)"
    using settleAll_in_flight [of w ?st ?cs] assms by simp
  obtain res st1 where r: "settleAll w ?st ?cs = (res, st1)" by (cases "settleAll w ?st ?cs")
  show ?thesis
  proof (cases res)
    case (Some err)
    with fa r sub show ?thesis by (simp add: tryBlock_def)
  next
    case None
    have "in_flight (snd (convertAndRun e w y p (st1\<lparr>fetched := Some (fs_now st1)\<rparr>))) = in_flight st1"
      by (auto simp: convertAndRun_def runAndReturn_def Let_def
          split: sum.splits prod.splits promise.splits)
    with None fa r sub show ?thesis by (simp add: tryBlock_def)
  qed
qed

text \<open>The \<^verbatim>\<open>try\<close> block is never left only if the engine was spawned and its process never closes.\<close>

lemma runAndReturn_Never:
  "fst (runAndReturn e w p st) = Never \<Longrightarrow>
     \<exists>call fsS. spawned (snd (runAndReturn e w p st)) = Some (call, fsS)
        \<and> settled (runEvents (fst (child w call fsS))) = Pending"
  by (auto simp: runAndReturn_def Let_def split: prod.splits promise.splits sum.splits)

lemma convertAndRun_Never:
  "fst (convertAndRun e w y p st) = Never \<Longrightarrow>
     \<exists>call fsS. spawned (snd (convertAndRun e w y p st)) = Some (call, fsS)
        \<and> settled (runEvents (fst (child w call fsS))) = Pending"
  by (auto simp: convertAndRun_def Let_def dest: runAndReturn_Never split: sum.splits if_splits)

lemma tryBlock_Never:
  "fst (tryBlock e w y normalized p st) = Never \<Longrightarrow>
     \<exists>call fsS. spawned (snd (tryBlock e w y normalized p st)) = Some (call, fsS)
        \<and> settled (runEvents (fst (child w call fsS))) = Pending"
  by (auto simp: tryBlock_def dest: convertAndRun_Never split: prod.splits option.splits)

text \<open>
  C1. Take a run that has created its working directory \<open>dir\<close>, in a world where every
  engine process settles the promise of \<open>runRmlMapper\<close>. The handler returns with a
  response; \<open>dir\<close> is the only directory the run creates and the recursive removal of
  \<open>dir\<close> is its only removal; the removal is called after every call the handler itself
  makes, and the only calls after it are the writes of fetches that were still in flight
  when another fetch had failed, which nothing awaits or cancels. Where removals do not
  fail, nothing is left at \<open>dir\<close> or below it when all of that is over; and whether and how
  the removal fails changes neither the response nor the calls nor the way the handler
  ends. A run that never returns has spawned the engine, and the process started then
  never settles the promise.
\<close>

theorem workspace_removed:
  "(Mkdtemp dir \<in> set (effects (handler e w req fs))
    \<and> (\<forall>call fs'. settled (runEvents (fst (child w call fs'))) \<noteq> Pending) \<longrightarrow>
      completion (handler e w req fs) = Returned
      \<and> response (handler e w req fs) \<noteq> None
      \<and> ofKind {KMkdtemp, KRm} (effects (handler e w req fs)) = [Mkdtemp dir, Rm dir]
      \<and> (\<exists>own late. effects (handler e w req fs) = own @ Rm dir # late
             \<and> ofKind {KWrite} late = late)
      \<and> ((\<forall>fs' p. rm_error w fs' p = None) \<longrightarrow>
           files (handler e w req fs) dir \<noteq> Some Dir
           \<and> (\<forall>q. startsWith q (dir @ js ''/'') \<longrightarrow> files (handler e w req fs) q = None))
      \<and> response (handler e (w\<lparr>rm_error := f\<rparr>) req fs) = response (handler e w req fs)
      \<and> effects (handler e (w\<lparr>rm_error := f\<rparr>) req fs) = effects (handler e w req fs)
      \<and> completion (handler e (w\<lparr>rm_error := f\<rparr>) req fs) = completion (handler e w req fs))
   \<and> (completion (handler e w req fs) = Hung \<longrightarrow>
        (\<exists>call fsS. at_spawn (handler e w req fs) = Some (call, fsS)
           \<and> settled (runEvents (fst (child w call fsS))) = Pending))"
proof (cases e w req fs rule: handler_cases)
  case untouched
  then show ?thesis by simp
next
  case (job y r rs normalized n p)
  let ?dir = "workdir p"
  let ?r = "tryBlock e w y normalized p (startState ?dir (fs(?dir \<mapsto> Dir)))"
  have out: "handler e w req fs = catchFinally w ?dir ?r" by (rule job(7))
  have ends: "?dir \<noteq> []" "last ?dir \<noteq> 0x2F"
    unfolding job(5) using workdir_end by blast+
  have hung: "\<exists>call fsS. at_spawn (handler e w req fs) = Some (call, fsS)
           \<and> settled (runEvents (fst (child w call fsS))) = Pending"
    if "completion (handler e w req fs) = Hung"
  proof -
    have "fst ?r = Never"
      using that out catchFinally_completion [of ?r w ?dir] by (cases "fst ?r = Never") auto
    from tryBlock_Never [OF this] show ?thesis
      using out by (simp add: catchFinally_observed)
  qed
  have main: "completion (handler e w req fs) = Returned
      \<and> response (handler e w req fs) \<noteq> None
      \<and> ofKind {KMkdtemp, KRm} (effects (handler e w req fs)) = [Mkdtemp dir, Rm dir]
      \<and> (\<exists>own late. effects (handler e w req fs) = own @ Rm dir # late
             \<and> ofKind {KWrite} late = late)
      \<and> ((\<forall>fs' p. rm_error w fs' p = None) \<longrightarrow>
           files (handler e w req fs) dir \<noteq> Some Dir
           \<and> (\<forall>q. startsWith q (dir @ js ''/'') \<longrightarrow> files (handler e w req fs) q = None))
      \<and> response (handler e (w\<lparr>rm_error := f\<rparr>) req fs) = response (handler e w req fs)
      \<and> effects (handler e (w\<lparr>rm_error := f\<rparr>) req fs) = effects (handler e w req fs)
      \<and> completion (handler e (w\<lparr>rm_error := f\<rparr>) req fs) = completion (handler e w req fs)"
    if h: "Mkdtemp dir \<in> set (effects (handler e w req fs))
        \<and> (\<forall>call fs'. settled (runEvents (fst (child w call fs'))) \<noteq> Pending)"
  proof -
    have nn: "fst ?r \<noteq> Never"
      using h tryBlock_Never [of e w y normalized p "startState ?dir (fs(?dir \<mapsto> Dir))"] by auto
    have eff: "effects (handler e w req fs)
        = calls (snd ?r) @ Rm ?dir # writesOf w (in_flight (snd ?r))"
      using out nn by (simp add: catchFinally_effects)
    have kinds: "ofKind {KMkdtemp, KRm} (calls (snd ?r)) = [Mkdtemp ?dir]"
      by (simp add: tryBlock_kinds ofKind_Cons startState_def)
    have k2: "ofKind {KMkdtemp, KRm} (effects (handler e w req fs)) = [Mkdtemp ?dir, Rm ?dir]"
      using eff kinds by (simp add: ofKind_Cons writesOf_kinds)
    from h have "Mkdtemp dir \<in> set (ofKind {KMkdtemp, KRm} (effects (handler e w req fs)))"
      by (simp add: ofKind_def)
    with k2 have dir: "dir = ?dir" by simp
    have shape: "\<exists>own late. effects (handler e w req fs) = own @ Rm dir # late
             \<and> ofKind {KWrite} late = late"
      using eff dir writesOf_writes by blast
    have norm: "normalized = map (\<lambda>r. (resourceUrlOf r, stringOf (fileNameOf r))) (r # rs)"
      using validate_Accepted [OF job(3)] by simp
    have safe: "\<forall>(u, name) \<in> set normalized. name \<noteq> [] \<and> 0x2F \<notin> set name"
      unfolding norm using fileName_safe by auto
    have "set (in_flight (snd ?r)) \<subseteq> set (issued e w ?dir normalized)"
      by (rule tryBlock_in_flight) (simp add: startState_def)
    then have inDir: "\<forall>c \<in> set (in_flight (snd ?r)). inDir ?dir (snd (snd c))"
      using issued_inDir [OF ends safe] by blast
    have files: "gone ?dir (files (handler e w req fs))" if "\<forall>fs' p. rm_error w fs' p = None"
    proof -
      obtain x st where r: "?r = (x, st)" by (cases ?r)
      with nn have "x \<noteq> Never" by simp
      then obtain res where "catchFinally w ?dir ?r = finallyBlock w ?dir res st"
        using r by (cases x) (auto simp: catchFinally_def)
      moreover have "gone ?dir (files (finallyBlock w ?dir res st))"
        using finallyBlock_gone [OF ends _ that] inDir r by simp
      ultimately show ?thesis using out by simp
    qed
    show ?thesis
      using out nn k2 shape dir files handler_rm_error [where e = e and w = w and f = f and req = req and fs = fs]
      by (simp add: catchFinally_completion gone_def)
  qed
  from main hung show ?thesis by blast
qed

theorem workspace_removed_witness:
  "effects (handler env0 world0 twoResources fs0)
     = [Mkdtemp (js ''/tmp/mapjob-1234-AbCdEf''), Fetch (js ''https://sub.example.com/a.json''),
        Fetch (js ''https://example.com/a.json''), Rm (js ''/tmp/mapjob-1234-AbCdEf''),
        WriteFile (js ''/tmp/mapjob-1234-AbCdEf/b.json'') ([0x22] @ js ''hello'' @ [0x22])]
   \<and> response (handler env0 world0 twoResources fs0)
     = Some (Json 422 (JObject [(js ''error'', JString (js ''Mapping failed'')),
                                (js ''message'', JString (js ''Fetch failed: HTTP 500''))]))
   \<and> completion (handler env0 world0 twoResources fs0) = Returned
   \<and> files (handler env0 world0 twoResources fs0) (js ''/tmp/mapjob-1234-AbCdEf'') \<noteq> Some Dir
   \<and> files (handler env0 world0 twoResources fs0) (js ''/tmp/mapjob-1234-AbCdEf/b.json'') = None
   \<and> files (handler env0 (world0\<lparr>rm_error := (\<lambda>fs p. Some (newError (js ''ENOTEMPTY''))), rm_overtaken := 1\<rparr>)
          twoResources fs0) (js ''/tmp/mapjob-1234-AbCdEf/b.json'')
     = Some (File ([0x22] @ js ''hello'' @ [0x22]))
   \<and> response (handler env0 (world0\<lparr>rm_error := (\<lambda>fs p. Some (newError (js ''ENOTEMPTY'')))\<rparr>)
        twoResources fs0)
     = response (handler env0 world0 twoResources fs0)"
proof -
  let ?dir = "js ''/tmp/mapjob-1234-AbCdEf''"
  have eff: "effects (handler env0 world0 twoResources fs0)
     = [Mkdtemp ?dir, Fetch (js ''https://sub.example.com/a.json''),
        Fetch (js ''https://example.com/a.json''), Rm ?dir,
        WriteFile (js ''/tmp/mapjob-1234-AbCdEf/b.json'') ([0x22] @ js ''hello'' @ [0x22])]"
    by (simp add: model_eval example_eval twoResources_def)
  have resp: "response (handler env0 world0 twoResources fs0)
     = Some (Json 422 (JObject [(js ''error'', JString (js ''Mapping failed'')),
                                (js ''message'', JString (js ''Fetch failed: HTTP 500''))]))"
    by (simp add: model_eval example_eval twoResources_def)
  have left: "files (handler env0 (world0\<lparr>rm_error := (\<lambda>fs p. Some (newError (js ''ENOTEMPTY''))), rm_overtaken := 1\<rparr>)
          twoResources fs0) (js ''/tmp/mapjob-1234-AbCdEf/b.json'')
     = Some (File ([0x22] @ js ''hello'' @ [0x22]))"
    by (simp add: model_eval example_eval twoResources_def)
  have created: "Mkdtemp ?dir \<in> set (effects (handler env0 world0 twoResources fs0))"
    by (simp add: eff)
  have closes: "\<forall>call fs'. settled (runEvents (fst (child world0 call fs'))) \<noteq> Pending"
    by (simp add: world0_def child0_def runEvents_def initialState_def settle_def Let_def)
  have removes: "\<forall>fs' p. rm_error world0 fs' p = None"
    by (simp add: world0_def)
  have below: "startsWith (js ''/tmp/mapjob-1234-AbCdEf/b.json'') (?dir @ js ''/'')"
    by (simp add: js_def)
  note run = workspace_removed
    [where dir = ?dir and e = env0 and w = world0 and req = twoResources and fs = fs0
       and f = "\<lambda>fs p. Some (newError (js ''ENOTEMPTY''))",
     THEN conjunct1, THEN mp, OF conjI [OF created closes]]
  from run have ret: "completion (handler env0 world0 twoResources fs0) = Returned"
    by (rule conjunct1)
  from run removes have gone: "files (handler env0 world0 twoResources fs0) ?dir \<noteq> Some Dir"
    and emptied: "\<forall>q. startsWith q (?dir @ js ''/'') \<longrightarrow> files (handler env0 world0 twoResources fs0) q = None"
    by blast+
  from emptied below
  have inside: "files (handler env0 world0 twoResources fs0) (js ''/tmp/mapjob-1234-AbCdEf/b.json'') = None"
    by blast
  from run have same: "response (handler env0 (world0\<lparr>rm_error := (\<lambda>fs p. Some (newError (js ''ENOTEMPTY'')))\<rparr>)
        twoResources fs0) = response (handler env0 world0 twoResources fs0)"
    by blast
  show ?thesis
    by (intro conjI eff resp ret gone inside left same)
qed

section \<open>Conversion errors\<close>

text \<open>
  C4. When the converter's logger holds an error for the mapping of the request, no run
  spawns the engine; and a run that gets to call the converter answers 422 with the error
  \<^verbatim>\<open>YARRRML conversion failed\<close> and the whole log of the logger.
\<close>

theorem conversion_error_no_engine:
  "getProp (req_body req) (js ''yarrml'') = JString y \<and> convert w y = Inr y2r
   \<and> getLogger y2r = Some lg \<and> has_error lg \<longrightarrow>
     ofKind {KSpawn} (effects (handler e w req fs)) = []
     \<and> (Convert y \<in> set (effects (handler e w req fs)) \<longrightarrow>
          response (handler e w req fs)
            = Some (Json 422 (JObject [(js ''error'', JString (js ''YARRRML conversion failed'')),
                                       (js ''logs'', getAll lg)]))
          \<and> completion (handler e w req fs) = Returned)"
proof
  assume h: "getProp (req_body req) (js ''yarrml'') = JString y \<and> convert w y = Inr y2r
   \<and> getLogger y2r = Some lg \<and> has_error lg"
  show "ofKind {KSpawn} (effects (handler e w req fs)) = []
     \<and> (Convert y \<in> set (effects (handler e w req fs)) \<longrightarrow>
          response (handler e w req fs)
            = Some (Json 422 (JObject [(js ''error'', JString (js ''YARRRML conversion failed'')),
                                       (js ''logs'', getAll lg)]))
          \<and> completion (handler e w req fs) = Returned)"
  proof (cases e w req fs rule: handler_cases)
    case untouched
    then show ?thesis by simp
  next
    case (job y' r rs normalized n p)
    with h have y: "y' = y" by simp
    let ?st0 = "startState (workdir p) (fs(workdir p \<mapsto> Dir))"
    have out: "handler e w req fs = catchFinally w (workdir p) (tryBlock e w y normalized p ?st0)"
      using job(7) y by simp
    obtain res st1 where fa: "fetchAll e w (workdir p) normalized ?st0 = (res, st1)"
      by (cases "fetchAll e w (workdir p) normalized ?st0")
    have k1: "ofKind {KSpawn, KConvert} (calls st1) = []"
      using fetchAll_kinds [of "{KSpawn, KConvert}" e w "workdir p" normalized ?st0] fa
      by (simp add: ofKind_Cons startState_def)
    have late: "ofKind {KSpawn, KConvert} (writesOf w cs) = []" for cs
      by (rule writesOf_kinds) simp
    show ?thesis
    proof (cases res)
      case (Some err)
      with fa out have "effects (handler e w req fs)
          = calls st1 @ Rm (workdir p) # writesOf w (in_flight st1)"
        by (simp add: tryBlock_def catchFinally_effects)
      with k1 late have "ofKind {KSpawn, KConvert} (effects (handler e w req fs)) = []"
        by (simp add: ofKind_Cons)
      then show ?thesis
        by (auto simp: ofKind_def filter_empty_conv)
    next
      case None
      with fa h have tb: "tryBlock e w y normalized p ?st0
          = (Responded (Json 422 (JObject [(js ''error'', JString (js ''YARRRML conversion failed'')),
                                           (js ''logs'', getAll lg)])),
             st1\<lparr>fetched := Some (fs_now st1), calls := calls st1 @ [Convert y]\<rparr>)"
        by (simp add: tryBlock_def convertAndRun_def)
      with out have "effects (handler e w req fs)
            = calls st1 @ Convert y # Rm (workdir p) # writesOf w (in_flight st1)"
        by (simp add: catchFinally_effects)
      moreover from tb out have "response (handler e w req fs)
            = Some (Json 422 (JObject [(js ''error'', JString (js ''YARRRML conversion failed'')),
                                       (js ''logs'', getAll lg)]))"
        and "completion (handler e w req fs) = Returned"
        by (simp_all add: catchFinally_def finallyBlock_def Let_def)
      moreover from k1 have "ofKind {KSpawn} (calls st1) = []"
        by (auto simp: ofKind_def filter_empty_conv)
      moreover have "ofKind {KSpawn} (writesOf w (in_flight st1)) = []"
        by (rule writesOf_kinds) simp
      ultimately show ?thesis
        by (simp add: ofKind_Cons)
    qed
  qed
qed

theorem conversion_error_no_engine_witness:
  "response (handler env0 world0 (req0 ''bad'' [resource ''https://example.com/a.json'' ''a.json'']) fs0)
     = Some (Json 422 (JObject [(js ''error'', JString (js ''YARRRML conversion failed'')),
                                (js ''logs'', JArray [JString (js ''error: bad'')])]))
   \<and> effects (handler env0 world0 (req0 ''bad'' [resource ''https://example.com/a.json'' ''a.json'']) fs0)
     = [Mkdtemp (js ''/tmp/mapjob-1234-AbCdEf''), Fetch (js ''https://example.com/a.json''),
        WriteFile (js ''/tmp/mapjob-1234-AbCdEf/a.json'') ([0x22] @ js ''hello'' @ [0x22]),
        Convert (js ''bad''), Rm (js ''/tmp/mapjob-1234-AbCdEf'')]"
  using conversion_error_no_engine
    [of "req0 ''bad'' [resource ''https://example.com/a.json'' ''a.json'']" "js ''bad''" world0
        "\<lparr> converted = JUndefined,
           getLogger = Some \<lparr> has_error = True, getAll = JArray [JString (js ''error: bad'')] \<rparr> \<rparr>"
        "\<lparr> has_error = True, getAll = JArray [JString (js ''error: bad'')] \<rparr>" env0 fs0]
  by (simp add: model_eval example_eval)

section \<open>Resource names and the mapping document\<close>

text \<open>With one resource, the fetches of a job are the one call of \<open>fetchJsonToFile\<close>.\<close>

lemma fetchAll_single:
  "fst (fetchAll e w dir [(u, name)] st) = fst (fetchJsonToFile e w 0 u (pathJoin dir name) (fs_now st))
   \<and> fs_now (snd (fetchAll e w dir [(u, name)] st))
       = snd (fetchJsonToFile e w 0 u (pathJoin dir name) (fs_now st))"
proof (cases "snd (fetchSettles (FETCH_TIMEOUT_MS e) (exchange w 0 u))")
  case (Inl err)
  then show ?thesis
    by (simp add: fetchAll_def issued_def fetchJsonToFile_def)
next
  case (Inr json)
  then show ?thesis
    by (simp add: fetchAll_def issued_def fetchJsonToFile_def Let_def split: sum.splits)
qed

lemma fileNameOf_string: "fileNameOf r = JString (stringOf (fileNameOf r))"
  by (auto simp: fileNameOf_def sanitizeFilename_def defaultParam_def stringOf_def Let_def
      split: jsvalue.splits)

lemma writeFile_Inr: "writeFile w fs path content = Inr fs' \<Longrightarrow> fs' = fs(path \<mapsto> File content)"
  by (auto simp: writeFile_def split: if_splits option.splits)

text \<open>
  When every fetch has succeeded, each has written its JSON text, and a path holds the
  text of the fetch that was the last to settle among those written to it.
\<close>

lemma settleAll_None:
  "settleAll w st cs = (None, st1) \<Longrightarrow>
     \<exists>ws. calls st1 = calls st @ ws
       \<and> (\<forall>c \<in> set cs. \<exists>json. fst (snd c) = Inr json
             \<and> WriteFile (snd (snd c)) (JSON_stringify w json) \<in> set ws)"
proof (induction cs arbitrary: st)
  case Nil
  then show ?case by simp
next
  case (Cons c cs)
  obtain t r outPath where c: "c = (t, r, outPath)" by (cases c)
  show ?case
  proof (cases r)
    case (Inl err)
    with c Cons.prems show ?thesis by simp
  next
    case (Inr json)
    let ?content = "JSON_stringify w json"
    let ?st1 = "st\<lparr>calls := calls st @ [WriteFile outPath ?content]\<rparr>"
    from Cons.prems c Inr obtain fs' where
      "writeFile w (fs_now st) outPath ?content = Inr fs'"
      "settleAll w (?st1\<lparr>fs_now := fs'\<rparr>) cs = (None, st1)"
      by (auto simp: Let_def split: sum.splits)
    from Cons.IH [OF this(2)] obtain ws where ws:
      "calls st1 = (calls st @ [WriteFile outPath ?content]) @ ws"
      "\<forall>c \<in> set cs. \<exists>json. fst (snd c) = Inr json
             \<and> WriteFile (snd (snd c)) (JSON_stringify w json) \<in> set ws"
      by auto
    have "calls st1 = calls st @ (WriteFile outPath ?content # ws)"
      using ws(1) by simp
    moreover have "\<forall>c' \<in> set (c # cs). \<exists>json. fst (snd c') = Inr json
             \<and> WriteFile (snd (snd c')) (JSON_stringify w json) \<in> set (WriteFile outPath ?content # ws)"
      using ws(2) c Inr by auto
    ultimately show ?thesis by blast
  qed
qed

lemma settleAll_other:
  "settleAll w st cs = (res, st1) \<Longrightarrow> \<forall>c \<in> set cs. snd (snd c) \<noteq> path \<Longrightarrow>
     fs_now st1 path = fs_now st path"
proof (induction cs arbitrary: st)
  case Nil
  then show ?case by simp
next
  case (Cons c cs)
  obtain t r outPath where c: "c = (t, r, outPath)" by (cases c)
  show ?case
  proof (cases r)
    case (Inl err)
    with c Cons.prems show ?thesis by auto
  next
    case (Inr json)
    let ?content = "JSON_stringify w json"
    let ?st1 = "st\<lparr>calls := calls st @ [WriteFile outPath ?content]\<rparr>"
    show ?thesis
    proof (cases "writeFile w (fs_now st) outPath ?content")
      case (Inl err)
      with c Inr Cons.prems show ?thesis by (auto simp: Let_def)
    next
      case written: (Inr fs')
      with c Inr Cons.prems have "settleAll w (?st1\<lparr>fs_now := fs'\<rparr>) cs = (res, st1)"
        by (simp add: Let_def)
      from Cons.IH [OF this] Cons.prems(2) have "fs_now st1 path = fs' path" by simp
      moreover have "fs' path = fs_now st path"
        using writeFile_Inr [OF written] Cons.prems(2) c by auto
      ultimately show ?thesis by simp
    qed
  qed
qed

lemma settleAll_files:
  "settleAll w st cs = (None, st1) \<Longrightarrow> \<exists>c \<in> set cs. snd (snd c) = path \<Longrightarrow>
     \<exists>c \<in> set cs. \<exists>json. snd (snd c) = path \<and> fst (snd c) = Inr json
        \<and> fs_now st1 path = Some (File (JSON_stringify w json))"
proof (induction cs arbitrary: st)
  case Nil
  then show ?case by simp
next
  case (Cons c cs)
  obtain t r outPath where c: "c = (t, r, outPath)" by (cases c)
  show ?case
  proof (cases r)
    case (Inl err)
    with c Cons.prems show ?thesis by simp
  next
    case (Inr json)
    let ?content = "JSON_stringify w json"
    let ?st1 = "st\<lparr>calls := calls st @ [WriteFile outPath ?content]\<rparr>"
    from Cons.prems(1) c Inr obtain fs' where
      written: "writeFile w (fs_now st) outPath ?content = Inr fs'"
      and rest: "settleAll w (?st1\<lparr>fs_now := fs'\<rparr>) cs = (None, st1)"
      by (auto simp: Let_def split: sum.splits)
    show ?thesis
    proof (cases "\<exists>c' \<in> set cs. snd (snd c') = path")
      case True
      from Cons.IH [OF rest True] show ?thesis by auto
    next
      case False
      with Cons.prems(2) c have here: "outPath = path" by auto
      from False have "fs_now st1 path = fs' path"
        using settleAll_other [OF rest] by simp
      also have "\<dots> = Some (File ?content)"
        using writeFile_Inr [OF written] here by simp
      finally show ?thesis
        using c Inr here by auto
    qed
  qed
qed

lemma settleAll_fetched: "fetched (snd (settleAll w st cs)) = fetched st"
  by (induction w st cs rule: settleAll.induct) (auto simp: Let_def split: sum.splits)

lemma settleAll_spawned: "spawned (snd (settleAll w st cs)) = spawned st"
  by (induction w st cs rule: settleAll.induct) (auto simp: Let_def split: sum.splits)

lemma issued_member:
  "c \<in> set (issued e w dir normalized) \<longleftrightarrow>
     (\<exists>n u name. n < length normalized \<and> normalized ! n = (u, name)
        \<and> c = (fst (fetchSettles (FETCH_TIMEOUT_MS e) (exchange w n u)),
               snd (fetchSettles (FETCH_TIMEOUT_MS e) (exchange w n u)),
               pathJoin dir name))"
proof
  assume "c \<in> set (issued e w dir normalized)"
  then obtain n u name where "(n, (u, name)) \<in> set (enumerate 0 normalized)"
    "c = (fst (fetchSettles (FETCH_TIMEOUT_MS e) (exchange w n u)),
          snd (fetchSettles (FETCH_TIMEOUT_MS e) (exchange w n u)),
          pathJoin dir name)"
    by (auto simp: issued_def)
  then show "\<exists>n u name. n < length normalized \<and> normalized ! n = (u, name)
        \<and> c = (fst (fetchSettles (FETCH_TIMEOUT_MS e) (exchange w n u)),
               snd (fetchSettles (FETCH_TIMEOUT_MS e) (exchange w n u)),
               pathJoin dir name)"
    by (auto simp: in_set_enumerate_eq)
next
  assume "\<exists>n u name. n < length normalized \<and> normalized ! n = (u, name)
        \<and> c = (fst (fetchSettles (FETCH_TIMEOUT_MS e) (exchange w n u)),
               snd (fetchSettles (FETCH_TIMEOUT_MS e) (exchange w n u)),
               pathJoin dir name)"
  then obtain n u name where n: "n < length normalized" "normalized ! n = (u, name)"
    and c: "c = (fst (fetchSettles (FETCH_TIMEOUT_MS e) (exchange w n u)),
               snd (fetchSettles (FETCH_TIMEOUT_MS e) (exchange w n u)),
               pathJoin dir name)"
    by blast
  from n have "(n, (u, name)) \<in> set (enumerate 0 normalized)"
    by (simp add: in_set_enumerate_eq)
  then show "c \<in> set (issued e w dir normalized)"
    unfolding issued_def set_map by (rule image_eqI [rotated]) (simp add: c)
qed

lemma fetchAll_None:
  assumes "fetchAll e w dir normalized st = (None, st1)"
    and "(u, name) \<in> set normalized"
  shows "\<exists>ws n json. calls st1 = calls st @ map (\<lambda>(resourceUrl, fileName). Fetch resourceUrl) normalized @ ws
           \<and> snd (fetchSettles (FETCH_TIMEOUT_MS e) (exchange w n u)) = Inr json
           \<and> WriteFile (pathJoin dir name) (JSON_stringify w json) \<in> set ws"
proof -
  let ?st = "st\<lparr>calls := calls st @ map (\<lambda>(resourceUrl, fileName). Fetch resourceUrl) normalized\<rparr>"
  from assms(1) have "settleAll w ?st (sort_key fst (issued e w dir normalized)) = (None, st1)"
    by (simp add: fetchAll_def)
  from settleAll_None [OF this] obtain ws where ws:
    "calls st1 = calls ?st @ ws"
    "\<forall>c \<in> set (issued e w dir normalized). \<exists>json. fst (snd c) = Inr json
        \<and> WriteFile (snd (snd c)) (JSON_stringify w json) \<in> set ws"
    by auto
  from assms(2) obtain n where n: "n < length normalized" "normalized ! n = (u, name)"
    by (auto simp: in_set_conv_nth)
  let ?c = "(fst (fetchSettles (FETCH_TIMEOUT_MS e) (exchange w n u)),
             snd (fetchSettles (FETCH_TIMEOUT_MS e) (exchange w n u)),
             pathJoin dir name)"
  from n have "?c \<in> set (issued e w dir normalized)"
    unfolding issued_member by blast
  with ws(2) obtain json where "snd (fetchSettles (FETCH_TIMEOUT_MS e) (exchange w n u)) = Inr json"
    "WriteFile (pathJoin dir name) (JSON_stringify w json) \<in> set ws"
    by fastforce
  with ws(1) show ?thesis by auto
qed

text \<open>The file a path of the job holds once all fetches have succeeded.\<close>

lemma fetchAll_files:
  assumes "fetchAll e w dir normalized st = (None, st1)"
    and "(u, name) \<in> set normalized"
  shows "\<exists>n u' name' json. n < length normalized \<and> normalized ! n = (u', name')
           \<and> pathJoin dir name' = pathJoin dir name
           \<and> snd (fetchSettles (FETCH_TIMEOUT_MS e) (exchange w n u')) = Inr json
           \<and> fs_now st1 (pathJoin dir name) = Some (File (JSON_stringify w json))"
proof -
  let ?st = "st\<lparr>calls := calls st @ map (\<lambda>(resourceUrl, fileName). Fetch resourceUrl) normalized\<rparr>"
  let ?cs = "sort_key fst (issued e w dir normalized)"
  from assms(1) have run: "settleAll w ?st ?cs = (None, st1)"
    by (simp add: fetchAll_def)
  from assms(2) obtain n where n: "n < length normalized" "normalized ! n = (u, name)"
    by (auto simp: in_set_conv_nth)
  then have "(fst (fetchSettles (FETCH_TIMEOUT_MS e) (exchange w n u)),
              snd (fetchSettles (FETCH_TIMEOUT_MS e) (exchange w n u)),
              pathJoin dir name) \<in> set (issued e w dir normalized)"
    unfolding issued_member by blast
  then have "\<exists>c \<in> set (issued e w dir normalized). snd (snd c) = pathJoin dir name"
    by force
  then have "\<exists>c \<in> set ?cs. snd (snd c) = pathJoin dir name"
    by simp
  from settleAll_files [OF run this] obtain c json where c:
    "c \<in> set (issued e w dir normalized)" "snd (snd c) = pathJoin dir name"
    "fst (snd c) = Inr json" "fs_now st1 (pathJoin dir name) = Some (File (JSON_stringify w json))"
    by auto
  from c(1) obtain m u' name' where m: "m < length normalized" "normalized ! m = (u', name')"
    "c = (fst (fetchSettles (FETCH_TIMEOUT_MS e) (exchange w m u')),
          snd (fetchSettles (FETCH_TIMEOUT_MS e) (exchange w m u')),
          pathJoin dir name')"
    unfolding issued_member by blast
  with c(2,3,4) show ?thesis by auto
qed

lemma fetchAll_observed:
  "fetched (snd (fetchAll e w dir normalized st)) = fetched st
   \<and> spawned (snd (fetchAll e w dir normalized st)) = spawned st"
  by (simp add: fetchAll_def settleAll_fetched settleAll_spawned)

lemma pathJoin_same:
  assumes "dir \<noteq> []" and "last dir \<noteq> 0x2F" and "name \<noteq> []" and "name \<noteq> js ''.''"
    and "pathJoin dir name' = pathJoin dir name"
  shows "name' = name"
  using assms by (auto simp: pathJoin_def js_def split: if_splits)

lemma catchFinally_tail:
  "\<exists>tail. effects (catchFinally w dir r) = calls (snd r) @ tail \<and> ofKind {KSpawn, KConvert, KFetch} tail = []"
proof (cases "fst r = Never")
  case True
  then show ?thesis by (cases r) (auto simp: catchFinally_def)
next
  case False
  have "ofKind {KSpawn, KConvert, KFetch} (writesOf w (in_flight (snd r))) = []"
    by (rule writesOf_kinds) simp
  with False show ?thesis
    by (simp add: catchFinally_effects ofKind_Cons)
qed

lemma runAndReturn_calls:
  "\<exists>post. calls (snd (runAndReturn e w p st)) = calls st @ Spawn (mapperSpawn e p) # post
      \<and> ofKind {KSpawn} post = []"
  by (auto simp: runAndReturn_def Let_def ofKind_Cons split: prod.splits promise.splits sum.splits)

lemma runAndReturn_observed:
  "spawned (snd (runAndReturn e w p st)) = Some (mapperSpawn e p, fs_now st)
   \<and> fetched (snd (runAndReturn e w p st)) = fetched st"
  by (auto simp: runAndReturn_def Let_def split: prod.splits promise.splits sum.splits)

lemma convertAndRun_fetched: "fetched (snd (convertAndRun e w y p st)) = fetched st"
  by (auto simp: convertAndRun_def Let_def runAndReturn_observed split: sum.splits)

text \<open>
  A run that spawns the engine has converted the mapping and written the document; the
  engine is handed the file system with that one file changed.
\<close>

lemma convertAndRun_Spawn:
  assumes "Spawn call \<in> set (calls (snd (convertAndRun e w y p st)))"
    and "ofKind {KSpawn} (calls st) = []"
  shows "\<exists>y2r rml post. convert w y = Inr y2r \<and> toTurtle w (converted y2r) = Inr rml
      \<and> call = mapperSpawn e p
      \<and> calls (snd (convertAndRun e w y p st))
          = calls st @ [Convert y, WriteFile (mappingPath p) rml, Spawn call] @ post
      \<and> spawned (snd (convertAndRun e w y p st))
          = Some (call, (fs_now st)(mappingPath p \<mapsto> File rml))"
proof -
  have no: "Spawn call \<notin> set (calls st)"
    using assms(2) by (auto simp: ofKind_def filter_empty_conv)
  show ?thesis
  proof (cases "convert w y")
    case (Inl err)
    with assms(1) no show ?thesis by (simp add: convertAndRun_def)
  next
    case (Inr y2r)
    show ?thesis
    proof (cases "case getLogger y2r of None \<Rightarrow> False | Some lg \<Rightarrow> has_error lg")
      case True
      with Inr assms(1) no show ?thesis by (simp add: convertAndRun_def)
    next
      case False
      show ?thesis
      proof (cases "toTurtle w (converted y2r)")
        case (Inl err)
        with Inr False assms(1) no show ?thesis by (simp add: convertAndRun_def)
      next
        case rml: (Inr rml)
        let ?st2 = "st\<lparr>calls := calls st @ [Convert y, WriteFile (mappingPath p) rml]\<rparr>"
        show ?thesis
        proof (cases "writeFile w (fs_now st) (mappingPath p) rml")
          case (Inl err)
          with Inr False rml assms(1) no show ?thesis by (simp add: convertAndRun_def)
        next
          case fs': (Inr fs')
          have eq: "convertAndRun e w y p st = runAndReturn e w p (?st2\<lparr>fs_now := fs'\<rparr>)"
            using Inr False rml fs' by (simp add: convertAndRun_def)
          obtain post where post:
            "calls (snd (runAndReturn e w p (?st2\<lparr>fs_now := fs'\<rparr>)))
               = calls (?st2\<lparr>fs_now := fs'\<rparr>) @ Spawn (mapperSpawn e p) # post"
            "ofKind {KSpawn} post = []"
            using runAndReturn_calls by blast
          have "Spawn call \<notin> set post"
            using post(2) by (auto simp: ofKind_def filter_empty_conv)
          with assms(1) no eq post(1) have call: "call = mapperSpawn e p" by auto
          have "spawned (snd (convertAndRun e w y p st)) = Some (call, fs')"
            using eq call runAndReturn_observed [of e w p "?st2\<lparr>fs_now := fs'\<rparr>"] by simp
          with writeFile_Inr [OF fs'] eq post(1) Inr rml call show ?thesis by simp
        qed
      qed
    qed
  qed
qed

lemma pathJoin_mapping:
  "dir \<noteq> [] \<Longrightarrow> last dir \<noteq> 0x2F \<Longrightarrow> pathJoin dir (js ''mapping.ttl'') = dir @ js ''/mapping.ttl''"
  by (simp add: pathJoin_def js_def)

lemma mapperSpawn_mapping:
  "cwd (mapperSpawn e p) = workdir p
   \<and> map_of (flagPairs (args (mapperSpawn e p))) (js ''-m'') = Some (mappingPath p)"
  by (simp add: mapperSpawn_def mapperArgs_def js_def)

lemma sanitize_mapping: "sanitizeFilename (JString (js ''mapping.ttl'')) fb = JString (js ''mapping.ttl'')"
  by (simp add: sanitizeFilename_def Let_def js_def trim_def isWhiteSpace_def safeNameTest_iff inClass_def)

text \<open>
  C10. The name \<^verbatim>\<open>mapping.ttl\<close> passes \<open>sanitizeFilename\<close> unchanged, and a resource with
  that file name is accepted like any other. In every run that gets to spawn the engine,
  that resource has been fetched and its JSON text written to \<^verbatim>\<open>mapping.ttl\<close> in the
  working directory, so that when the fetches are done the file holds the JSON text of a
  resource of that name (of the last to settle, when there are several). The generated
  mapping document is written to the same path later, as the last call before the engine is
  spawned with that path as its \<^verbatim>\<open>-m\<close> argument. The file system the engine is
  started on is the one the fetches have left with that one file replaced by the mapping
  document: the content of the resource is lost.
\<close>

theorem mapping_overwrites_resource:
  "sanitizeFilename (JString (js ''mapping.ttl'')) fb = JString (js ''mapping.ttl'')
   \<and> (getProp (req_body req) (js ''resources'') = JArray rs \<and> r \<in> set rs
      \<and> fileNameOf r = JString (js ''mapping.ttl'')
      \<and> Spawn call \<in> set (effects (handler e w req fs)) \<longrightarrow>
     (\<exists>dir json rml pre mid post fsF fsS.
        effects (handler e w req fs)
          = pre @ [WriteFile (dir @ js ''/mapping.ttl'') (JSON_stringify w json)] @ mid
              @ [WriteFile (dir @ js ''/mapping.ttl'') rml, Spawn call] @ post
        \<and> Mkdtemp dir \<in> set pre \<and> Fetch (resourceUrlOf r) \<in> set pre
        \<and> (\<exists>n. snd (fetchSettles (FETCH_TIMEOUT_MS e) (exchange w n (resourceUrlOf r))) = Inr json)
        \<and> (\<exists>y y2r. getProp (req_body req) (js ''yarrml'') = JString y \<and> convert w y = Inr y2r
              \<and> toTurtle w (converted y2r) = Inr rml)
        \<and> cwd call = dir
        \<and> map_of (flagPairs (args call)) (js ''-m'') = Some (dir @ js ''/mapping.ttl'')
        \<and> at_fetched (handler e w req fs) = Some fsF
        \<and> (\<exists>r' \<in> set rs. \<exists>n json'. fileNameOf r' = JString (js ''mapping.ttl'')
              \<and> snd (fetchSettles (FETCH_TIMEOUT_MS e) (exchange w n (resourceUrlOf r'))) = Inr json'
              \<and> fsF (dir @ js ''/mapping.ttl'') = Some (File (JSON_stringify w json')))
        \<and> at_spawn (handler e w req fs) = Some (call, fsS)
        \<and> fsS = fsF(dir @ js ''/mapping.ttl'' \<mapsto> File rml)))"
proof (rule conjI [OF sanitize_mapping], rule impI)
  assume h: "getProp (req_body req) (js ''resources'') = JArray rs \<and> r \<in> set rs
   \<and> fileNameOf r = JString (js ''mapping.ttl'')
   \<and> Spawn call \<in> set (effects (handler e w req fs))"
  show "\<exists>dir json rml pre mid post fsF fsS.
        effects (handler e w req fs)
          = pre @ [WriteFile (dir @ js ''/mapping.ttl'') (JSON_stringify w json)] @ mid
              @ [WriteFile (dir @ js ''/mapping.ttl'') rml, Spawn call] @ post
        \<and> Mkdtemp dir \<in> set pre \<and> Fetch (resourceUrlOf r) \<in> set pre
        \<and> (\<exists>n. snd (fetchSettles (FETCH_TIMEOUT_MS e) (exchange w n (resourceUrlOf r))) = Inr json)
        \<and> (\<exists>y y2r. getProp (req_body req) (js ''yarrml'') = JString y \<and> convert w y = Inr y2r
              \<and> toTurtle w (converted y2r) = Inr rml)
        \<and> cwd call = dir
        \<and> map_of (flagPairs (args call)) (js ''-m'') = Some (dir @ js ''/mapping.ttl'')
        \<and> at_fetched (handler e w req fs) = Some fsF
        \<and> (\<exists>r' \<in> set rs. \<exists>n json'. fileNameOf r' = JString (js ''mapping.ttl'')
              \<and> snd (fetchSettles (FETCH_TIMEOUT_MS e) (exchange w n (resourceUrlOf r'))) = Inr json'
              \<and> fsF (dir @ js ''/mapping.ttl'') = Some (File (JSON_stringify w json')))
        \<and> at_spawn (handler e w req fs) = Some (call, fsS)
        \<and> fsS = fsF(dir @ js ''/mapping.ttl'' \<mapsto> File rml)"
  proof (cases e w req fs rule: handler_cases)
    case untouched
    with h show ?thesis by simp
  next
    case (job y r0 rs0 normalized k p)
    let ?dir = "workdir p"
    let ?mp = "?dir @ js ''/mapping.ttl''"
    let ?st0 = "startState ?dir (fs(?dir \<mapsto> Dir))"
    let ?tb = "tryBlock e w y normalized p ?st0"
    let ?fetches = "map (\<lambda>(resourceUrl, fileName). Fetch resourceUrl) normalized"
    have ends: "?dir \<noteq> []" "last ?dir \<noteq> 0x2F"
      unfolding job(5) using workdir_end by blast+
    have pj: "pathJoin ?dir (js ''mapping.ttl'') = ?mp"
      using ends by (rule pathJoin_mapping)
    have mp: "mappingPath p = ?mp"
      using job(6) pj by simp
    from h job(2) have rs: "rs = r0 # rs0" by simp
    have norm: "normalized = map (\<lambda>r. (resourceUrlOf r, stringOf (fileNameOf r))) rs"
      using validate_Accepted [OF job(3)] rs by simp
    with h have member: "(resourceUrlOf r, js ''mapping.ttl'') \<in> set normalized"
      by (force simp: stringOf_def)
    then have fetched: "Fetch (resourceUrlOf r) \<in> set ?fetches"
      by force
    obtain tail where tail: "effects (handler e w req fs) = calls (snd ?tb) @ tail"
      "ofKind {KSpawn, KConvert, KFetch} tail = []"
      using catchFinally_tail [of w ?dir ?tb] job(7) by auto
    have "Spawn call \<notin> set tail"
      using tail(2) by (auto simp: ofKind_def filter_empty_conv)
    with h tail(1) have spawned: "Spawn call \<in> set (calls (snd ?tb))" by simp
    obtain res st1 where fa: "fetchAll e w ?dir normalized ?st0 = (res, st1)"
      by (cases "fetchAll e w ?dir normalized ?st0")
    have k1: "ofKind {KSpawn} (calls st1) = []"
      using fetchAll_kinds [of "{KSpawn}" e w ?dir normalized ?st0] fa
      by (simp add: ofKind_Cons startState_def)
    show ?thesis
    proof (cases res)
      case (Some err)
      with fa have "calls (snd ?tb) = calls st1" by (simp add: tryBlock_def)
      with spawned k1 show ?thesis
        by (auto simp: ofKind_def filter_empty_conv)
    next
      case None
      let ?st1 = "st1\<lparr>fetched := Some (fs_now st1)\<rparr>"
      from None fa have tb: "?tb = convertAndRun e w y p ?st1" by (simp add: tryBlock_def)
      have k1': "ofKind {KSpawn} (calls ?st1) = []" using k1 by simp
      from convertAndRun_Spawn [OF spawned [unfolded tb] k1']
      obtain y2r rml post where conv: "convert w y = Inr y2r" "toTurtle w (converted y2r) = Inr rml"
        "call = mapperSpawn e p"
        "calls (snd ?tb) = calls st1 @ [Convert y, WriteFile (mappingPath p) rml, Spawn call] @ post"
        "spawned (snd ?tb) = Some (call, (fs_now st1)(mappingPath p \<mapsto> File rml))"
        using tb by auto
      have seen: "at_fetched (handler e w req fs) = Some (fs_now st1)"
        using job(7) catchFinally_observed [of w ?dir ?tb] tb convertAndRun_fetched [of e w y p ?st1]
        by simp
      have started: "at_spawn (handler e w req fs) = Some (call, (fs_now st1)(?mp \<mapsto> File rml))"
        using job(7) catchFinally_observed [of w ?dir ?tb] conv(5) mp by simp
      from fetchAll_None [OF fa [unfolded None] member]
      obtain ws n json where ws: "calls st1 = calls ?st0 @ ?fetches @ ws"
        "snd (fetchSettles (FETCH_TIMEOUT_MS e) (exchange w n (resourceUrlOf r))) = Inr json"
        "WriteFile (pathJoin ?dir (js ''mapping.ttl'')) (JSON_stringify w json) \<in> set ws"
        by blast
      from ws(3) obtain ws1 ws2 where
        split: "ws = ws1 @ WriteFile ?mp (JSON_stringify w json) # ws2"
        unfolding pj by (auto dest: split_list)
      from fetchAll_files [OF fa [unfolded None] member]
      obtain m u' name' json' where last: "m < length normalized" "normalized ! m = (u', name')"
        "pathJoin ?dir name' = pathJoin ?dir (js ''mapping.ttl'')"
        "snd (fetchSettles (FETCH_TIMEOUT_MS e) (exchange w m u')) = Inr json'"
        "fs_now st1 (pathJoin ?dir (js ''mapping.ttl'')) = Some (File (JSON_stringify w json'))"
        by blast
      have "name' = js ''mapping.ttl''"
        using ends _ _ last(3) by (rule pathJoin_same) (simp_all add: js_def)
      with last(1,2) have "(u', js ''mapping.ttl'') \<in> set normalized"
        by (metis nth_mem)
      then obtain r' where r': "r' \<in> set rs" "u' = resourceUrlOf r'"
        "stringOf (fileNameOf r') = js ''mapping.ttl''"
        unfolding norm by auto
      have "fileNameOf r' = JString (js ''mapping.ttl'')"
        using fileNameOf_string [of r'] r'(3) by simp
      with r' last(4,5) pj have content: "\<exists>r' \<in> set rs. \<exists>n json'.
          fileNameOf r' = JString (js ''mapping.ttl'')
          \<and> snd (fetchSettles (FETCH_TIMEOUT_MS e) (exchange w n (resourceUrlOf r'))) = Inr json'
          \<and> fs_now st1 ?mp = Some (File (JSON_stringify w json'))"
        by auto
      let ?pre = "Mkdtemp ?dir # ?fetches @ ws1"
      let ?mid = "ws2 @ [Convert y]"
      let ?post = "post @ tail"
      have "effects (handler e w req fs)
          = ?pre @ [WriteFile ?mp (JSON_stringify w json)] @ ?mid @ [WriteFile ?mp rml, Spawn call] @ ?post"
        using tail(1) conv(4) ws(1) split mp by (simp add: startState_def)
      moreover have "Mkdtemp ?dir \<in> set ?pre" by simp
      moreover have "Fetch (resourceUrlOf r) \<in> set ?pre" using fetched by simp
      moreover have "\<exists>n. snd (fetchSettles (FETCH_TIMEOUT_MS e) (exchange w n (resourceUrlOf r))) = Inr json"
        using ws(2) by blast
      moreover have "\<exists>y y2r. getProp (req_body req) (js ''yarrml'') = JString y \<and> convert w y = Inr y2r
              \<and> toTurtle w (converted y2r) = Inr rml"
        using job(1) conv(1,2) by blast
      moreover have "cwd call = ?dir" "map_of (flagPairs (args call)) (js ''-m'') = Some ?mp"
        using conv(3) mapperSpawn_mapping [of e p] mp by simp_all
      moreover note seen content started
      ultimately show ?thesis by blast
    qed
  qed
qed

theorem mapping_overwrites_resource_witness:
  "effects (handler env0 world0 mappingJob fs0)
     = [Mkdtemp (js ''/tmp/mapjob-1234-AbCdEf''), Fetch (js ''https://example.com/a.json''),
        WriteFile (js ''/tmp/mapjob-1234-AbCdEf/mapping.ttl'') ([0x22] @ js ''hello'' @ [0x22]),
        Convert (js ''ok''),
        WriteFile (js ''/tmp/mapjob-1234-AbCdEf/mapping.ttl'') (js ''# rml ok''),
        Spawn mappingSpawn,
        ReadFile (js ''/tmp/mapjob-1234-AbCdEf/output.ttl''),
        Rm (js ''/tmp/mapjob-1234-AbCdEf'')]
   \<and> fileNameOf (resource ''https://example.com/a.json'' ''mapping.ttl'') = JString (js ''mapping.ttl'')
   \<and> map_option (\<lambda>fsF. fsF (js ''/tmp/mapjob-1234-AbCdEf/mapping.ttl'')) (at_fetched (handler env0 world0 mappingJob fs0))
     = Some (Some (File ([0x22] @ js ''hello'' @ [0x22])))
   \<and> map_option (\<lambda>(call, fsS). fsS (js ''/tmp/mapjob-1234-AbCdEf/mapping.ttl'')) (at_spawn (handler env0 world0 mappingJob fs0))
     = Some (Some (File (js ''# rml ok'')))
   \<and> (\<exists>fsF rml. at_fetched (handler env0 world0 mappingJob fs0) = Some fsF
         \<and> at_spawn (handler env0 world0 mappingJob fs0)
             = Some (mappingSpawn, fsF(js ''/tmp/mapjob-1234-AbCdEf/mapping.ttl'' \<mapsto> File rml)))"
proof -
  let ?out = "handler env0 world0 mappingJob fs0"
  let ?r = "resource ''https://example.com/a.json'' ''mapping.ttl''"
  have eff: "effects ?out
     = [Mkdtemp (js ''/tmp/mapjob-1234-AbCdEf''), Fetch (js ''https://example.com/a.json''),
        WriteFile (js ''/tmp/mapjob-1234-AbCdEf/mapping.ttl'') ([0x22] @ js ''hello'' @ [0x22]),
        Convert (js ''ok''),
        WriteFile (js ''/tmp/mapjob-1234-AbCdEf/mapping.ttl'') (js ''# rml ok''),
        Spawn mappingSpawn,
        ReadFile (js ''/tmp/mapjob-1234-AbCdEf/output.ttl''),
        Rm (js ''/tmp/mapjob-1234-AbCdEf'')]"
    by (simp add: model_eval example_eval mappingJob_def mappingSpawn_def)
  have name: "fileNameOf ?r = JString (js ''mapping.ttl'')"
    by (simp add: model_eval example_eval)
  have before: "map_option (\<lambda>fsF. fsF (js ''/tmp/mapjob-1234-AbCdEf/mapping.ttl'')) (at_fetched ?out)
     = Some (Some (File ([0x22] @ js ''hello'' @ [0x22])))"
    by (simp add: model_eval example_eval mappingJob_def)
  have after: "map_option (\<lambda>(call, fsS). fsS (js ''/tmp/mapjob-1234-AbCdEf/mapping.ttl'')) (at_spawn ?out)
     = Some (Some (File (js ''# rml ok'')))"
    by (simp add: model_eval example_eval mappingJob_def)
  have "getProp (req_body mappingJob) (js ''resources'') = JArray [?r] \<and> ?r \<in> set [?r]
      \<and> fileNameOf ?r = JString (js ''mapping.ttl'')
      \<and> Spawn mappingSpawn \<in> set (effects ?out)"
    using name by (simp add: eff) (simp add: mappingJob_def req0_def getProp_def js_def)
  from mapping_overwrites_resource
    [where req = mappingJob and rs = "[?r]" and r = ?r and call = mappingSpawn
       and e = env0 and w = world0 and fs = fs0, THEN conjunct2, THEN mp, OF this]
  obtain dir rml fsF where "cwd mappingSpawn = dir" "at_fetched ?out = Some fsF"
    "at_spawn ?out = Some (mappingSpawn, fsF(dir @ js ''/mapping.ttl'' \<mapsto> File rml))"
    by blast
  moreover have "cwd mappingSpawn @ js ''/mapping.ttl'' = js ''/tmp/mapjob-1234-AbCdEf/mapping.ttl''"
    by (simp add: mappingSpawn_def js_def)
  ultimately have "\<exists>fsF rml. at_fetched ?out = Some fsF
         \<and> at_spawn ?out = Some (mappingSpawn, fsF(js ''/tmp/mapjob-1234-AbCdEf/mapping.ttl'' \<mapsto> File rml))"
    by auto
  with eff name before after show ?thesis
    by (intro conjI)
qed

section \<open>The engine invocation\<close>

text \<open>The engine is spawned at most as the handler's code builds the invocation, in the directory the run has created.\<close>

lemma handler_spawn:
  assumes "Spawn call \<in> set (effects (handler e w req fs))"
  shows "\<exists>dir. Mkdtemp dir \<in> set (effects (handler e w req fs))
     \<and> call = mapperSpawn e
         \<lparr> workdir = dir,
           mappingPath = pathJoin dir (js ''mapping.ttl''),
           outputPath = pathJoin dir
             (js ''output.'' @ outputExt
                (trim (orDefault (query_serialization req) (DEFAULT_SERIALIZATION_const e)))),
           serialization = trim (orDefault (query_serialization req) (DEFAULT_SERIALIZATION_const e)),
           baseIri = handlerBaseIri e \<rparr>"
proof (cases e w req fs rule: handler_cases)
  case untouched
  with assms show ?thesis by simp
next
  case (job y r0 rs0 normalized k p)
  let ?dir = "workdir p"
  let ?st0 = "startState ?dir (fs(?dir \<mapsto> Dir))"
  let ?tb = "tryBlock e w y normalized p ?st0"
  obtain tail where tail: "effects (handler e w req fs) = calls (snd ?tb) @ tail"
    "ofKind {KSpawn, KConvert, KFetch} tail = []"
    using catchFinally_tail [of w ?dir ?tb] job(7) by auto
  have "Spawn call \<notin> set tail"
    using tail(2) by (auto simp: ofKind_def filter_empty_conv)
  with assms tail(1) have spawned: "Spawn call \<in> set (calls (snd ?tb))" by simp
  have "ofKind {KMkdtemp} (calls (snd ?tb)) = [Mkdtemp ?dir]"
    by (simp add: tryBlock_kinds ofKind_Cons startState_def)
  then have "Mkdtemp ?dir \<in> set (ofKind {KMkdtemp} (calls (snd ?tb)))" by simp
  then have created: "Mkdtemp ?dir \<in> set (effects (handler e w req fs))"
    using tail(1) by (simp add: ofKind_def)
  obtain res st1 where fa: "fetchAll e w ?dir normalized ?st0 = (res, st1)"
    by (cases "fetchAll e w ?dir normalized ?st0")
  have k1: "ofKind {KSpawn} (calls st1) = []"
    using fetchAll_kinds [of "{KSpawn}" e w ?dir normalized ?st0] fa
    by (simp add: ofKind_Cons startState_def)
  have "call = mapperSpawn e p"
  proof (cases res)
    case (Some err)
    with fa have "calls (snd ?tb) = calls st1" by (simp add: tryBlock_def)
    with spawned k1 show ?thesis
      by (auto simp: ofKind_def filter_empty_conv)
  next
    case None
    with fa have tb: "?tb = convertAndRun e w y p (st1\<lparr>fetched := Some (fs_now st1)\<rparr>)"
      by (simp add: tryBlock_def)
    have "ofKind {KSpawn} (calls (st1\<lparr>fetched := Some (fs_now st1)\<rparr>)) = []"
      using k1 by simp
    from convertAndRun_Spawn [OF spawned [unfolded tb] this] show ?thesis by blast
  qed
  with created job(8) show ?thesis by metis
qed

text \<open>
  C6. The child is \<^verbatim>\<open>java\<close>, run in the working directory of the invocation. Its
  argument list is a list of options each followed by its value: \<^verbatim>\<open>-m\<close> by the mapping
  path and \<^verbatim>\<open>-o\<close> by the output path always, \<^verbatim>\<open>-s\<close> by the serialization exactly when
  that is a non-empty string, \<^verbatim>\<open>-b\<close> by the base IRI exactly when one is given and is
  not empty. Every engine process a run of the handler spawns is such an invocation: its
  working directory is the directory the run has created, its paths are
  \<^verbatim>\<open>mapping.ttl\<close> and the output file in that directory, its serialization is the
  requested one, and its base IRI is the trimmed \<^verbatim>\<open>BASE_IRI\<close> when that is not empty.
\<close>

theorem mapperSpawn_arguments:
  "command (mapperSpawn e p) = js ''java''
   \<and> cwd (mapperSpawn e p) = workdir p
   \<and> concat (map (\<lambda>(f, v). [f, v]) (flagPairs (args (mapperSpawn e p)))) = args (mapperSpawn e p)
   \<and> map_of (flagPairs (args (mapperSpawn e p))) (js ''-m'') = Some (mappingPath p)
   \<and> map_of (flagPairs (args (mapperSpawn e p))) (js ''-o'') = Some (outputPath p)
   \<and> map_of (flagPairs (args (mapperSpawn e p))) (js ''-s'')
       = (if serialization p \<noteq> [] then Some (serialization p) else None)
   \<and> map_of (flagPairs (args (mapperSpawn e p))) (js ''-b'')
       = (case baseIri p of None \<Rightarrow> None | Some b \<Rightarrow> if b \<noteq> [] then Some b else None)
   \<and> (Spawn call \<in> set (effects (handler e w req fs)) \<longrightarrow>
        (\<exists>dir. Mkdtemp dir \<in> set (effects (handler e w req fs))
           \<and> call = mapperSpawn e
               \<lparr> workdir = dir,
                 mappingPath = pathJoin dir (js ''mapping.ttl''),
                 outputPath = pathJoin dir
                   (js ''output.'' @ outputExt
                      (trim (orDefault (query_serialization req) (DEFAULT_SERIALIZATION_const e)))),
                 serialization = trim (orDefault (query_serialization req) (DEFAULT_SERIALIZATION_const e)),
                 baseIri = (if trim (orDefault (BASE_IRI e) []) \<noteq> []
                            then Some (trim (orDefault (BASE_IRI e) [])) else None) \<rparr>))"
proof (intro conjI impI)
  assume "Spawn call \<in> set (effects (handler e w req fs))"
  from handler_spawn [OF this]
  show "\<exists>dir. Mkdtemp dir \<in> set (effects (handler e w req fs))
           \<and> call = mapperSpawn e
               \<lparr> workdir = dir,
                 mappingPath = pathJoin dir (js ''mapping.ttl''),
                 outputPath = pathJoin dir
                   (js ''output.'' @ outputExt
                      (trim (orDefault (query_serialization req) (DEFAULT_SERIALIZATION_const e)))),
                 serialization = trim (orDefault (query_serialization req) (DEFAULT_SERIALIZATION_const e)),
                 baseIri = (if trim (orDefault (BASE_IRI e) []) \<noteq> []
                            then Some (trim (orDefault (BASE_IRI e) [])) else None) \<rparr>"
    by (simp add: handlerBaseIri_def Let_def)
qed (simp_all add: mapperSpawn_def mapperArgs_def js_def split: option.splits)

theorem mapperSpawn_arguments_witness:
  "args (mapperSpawn env0 (params0\<lparr>serialization := js ''turtle'', baseIri := Some (js ''http://ex.org/'')\<rparr>))
     = [js ''-jar'', js ''/opt/rmlmapper.jar'', js ''-m'', js ''/tmp/job/mapping.ttl'',
        js ''-o'', js ''/tmp/job/output.nq'', js ''-s'', js ''turtle'', js ''-b'', js ''http://ex.org/'']
   \<and> cwd (mapperSpawn env0 params0) = js ''/tmp/job''
   \<and> map_of (flagPairs (args (mapperSpawn env0 (params0\<lparr>baseIri := Some []\<rparr>)))) (js ''-b'') = None
   \<and> Spawn \<lparr> command = js ''java'',
               args = [js ''-jar'', js ''/opt/rmlmapper.jar'',
                       js ''-m'', js ''/tmp/mapjob-1234-AbCdEf/mapping.ttl'',
                       js ''-o'', js ''/tmp/mapjob-1234-AbCdEf/output.ttl'', js ''-s'', js ''turtle''],
               cwd = js ''/tmp/mapjob-1234-AbCdEf'' \<rparr>
       \<in> set (effects (handler env0 world0
                (req0 ''ok'' [resource ''https://example.com/a.json'' ''a.json'']) fs0))"
  using mapperSpawn_arguments
    [of env0 "params0\<lparr>baseIri := Some []\<rparr>"
        "\<lparr> command = js ''java'',
           args = [js ''-jar'', js ''/opt/rmlmapper.jar'',
                   js ''-m'', js ''/tmp/mapjob-1234-AbCdEf/mapping.ttl'',
                   js ''-o'', js ''/tmp/mapjob-1234-AbCdEf/output.ttl'', js ''-s'', js ''turtle''],
           cwd = js ''/tmp/mapjob-1234-AbCdEf'' \<rparr>"
        world0 "req0 ''ok'' [resource ''https://example.com/a.json'' ''a.json'']" fs0]
  by (simp add: model_eval example_eval params0_def)

section \<open>Runs with a blank and with the trig serialization\<close>

text \<open>
  The query \<^verbatim>\<open>?serialization=%20\<close> is truthy and trims to the empty string: the engine
  is run without \<^verbatim>\<open>-s\<close>, and the answer has the default content type. With
  \<^verbatim>\<open>trig\<close> the engine is asked for TriG and the output file is \<^verbatim>\<open>output.nq\<close>.
\<close>

lemma blank_serialization_run:
  "effects (handler env0 world0
      ((req0 ''ok'' [resource ''https://example.com/a.json'' ''a.json''])\<lparr>query_serialization := Some (js '' '')\<rparr>) fs0)
     = [Mkdtemp (js ''/tmp/mapjob-1234-AbCdEf''), Fetch (js ''https://example.com/a.json''),
        WriteFile (js ''/tmp/mapjob-1234-AbCdEf/a.json'') ([0x22] @ js ''hello'' @ [0x22]),
        Convert (js ''ok''),
        WriteFile (js ''/tmp/mapjob-1234-AbCdEf/mapping.ttl'') (js ''# rml ok''),
        Spawn \<lparr> command = js ''java'',
                args = [js ''-jar'', js ''/opt/rmlmapper.jar'',
                        js ''-m'', js ''/tmp/mapjob-1234-AbCdEf/mapping.ttl'',
                        js ''-o'', js ''/tmp/mapjob-1234-AbCdEf/output.nq''],
                cwd = js ''/tmp/mapjob-1234-AbCdEf'' \<rparr>,
        ReadFile (js ''/tmp/mapjob-1234-AbCdEf/output.nq''),
        Rm (js ''/tmp/mapjob-1234-AbCdEf'')]
   \<and> response (handler env0 world0
      ((req0 ''ok'' [resource ''https://example.com/a.json'' ''a.json''])\<lparr>query_serialization := Some (js '' '')\<rparr>) fs0)
     = Some (Send 200 (js ''application/n-quads; charset=utf-8'') (js ''<s> <p> <o> .''))"
  by (simp add: model_eval example_eval)

lemma trig_run:
  "effects (handler env0 world0
      ((req0 ''ok'' [resource ''https://example.com/a.json'' ''a.json''])\<lparr>query_serialization := Some (js ''trig'')\<rparr>) fs0)
     = [Mkdtemp (js ''/tmp/mapjob-1234-AbCdEf''), Fetch (js ''https://example.com/a.json''),
        WriteFile (js ''/tmp/mapjob-1234-AbCdEf/a.json'') ([0x22] @ js ''hello'' @ [0x22]),
        Convert (js ''ok''),
        WriteFile (js ''/tmp/mapjob-1234-AbCdEf/mapping.ttl'') (js ''# rml ok''),
        Spawn \<lparr> command = js ''java'',
                args = [js ''-jar'', js ''/opt/rmlmapper.jar'',
                        js ''-m'', js ''/tmp/mapjob-1234-AbCdEf/mapping.ttl'',
                        js ''-o'', js ''/tmp/mapjob-1234-AbCdEf/output.nq'', js ''-s'', js ''trig''],
                cwd = js ''/tmp/mapjob-1234-AbCdEf'' \<rparr>,
        ReadFile (js ''/tmp/mapjob-1234-AbCdEf/output.nq''),
        Rm (js ''/tmp/mapjob-1234-AbCdEf'')]
   \<and> response (handler env0 world0
      ((req0 ''ok'' [resource ''https://example.com/a.json'' ''a.json''])\<lparr>query_serialization := Some (js ''trig'')\<rparr>) fs0)
     = Some (Send 200 (js ''application/trig; charset=utf-8'') (js ''<s> <p> <o> .''))"
  by (simp add: model_eval example_eval)

end
